theory Spec2Isabelle
  imports Complex_Main "HOL-Library.AList" "HOL-Library.Log_Nat" "HOL-Library.Sublist"
begin

section \<open>The file system seen by the analyzer\<close>

text \<open>
  The tool reads the file system through three calls of Node's \<^verbatim>\<open>fs\<close> module:
  \<^verbatim>\<open>existsSync\<close>, \<^verbatim>\<open>statSync\<close> and \<^verbatim>\<open>readdirSync\<close>. It never writes. A file system is
  modelled as a map from the path of a directory to the entries of that directory, each
  entry being a name with its byte size; a directory that is not in the map does not exist.
  The listing order of \<^verbatim>\<open>readdirSync\<close> is the order of the entries.

  \<^verbatim>\<open>path.join(dir, name)\<close> is modelled as the pair of the directory and the entry name. This
  is what \<^verbatim>\<open>path.join\<close> denotes when \<open>name\<close> is a single path component, which is the case
  for every name \<^verbatim>\<open>{device}-{page}-baseline.png\<close> built from device and page names without path
  separators. For a name with a separator \<^verbatim>\<open>path.join\<close> normalises the path, which may then
  lead to a file of another directory; \<open>single_component\<close> excludes the slash and the
  backslash, the separators of the two platforms, and every theorem whose statement depends
  on which of the expected files exist assumes it of the page names.

  Byte sizes are natural numbers. \<^verbatim>\<open>stats.size\<close> is a double, which is the exact size
  below \<open>2^53\<close> and a rounded one from there on; \<open>exact_sizes\<close> says that every entry of a
  directory is below \<open>2^53\<close>, and every theorem whose statement depends on the quotient of
  two sizes assumes it. The file system is the same for the whole run: between the
  existence test and the \<^verbatim>\<open>stat\<close> call of a file, and between the two listings of Phase 3,
  no other process changes the directory.
\<close>

type_synonym directory = "(string \<times> nat) list"

type_synonym filesystem = "string \<rightharpoonup> directory"

type_synonym path = "string \<times> string"

datatype syscall = stat | scandir

datatype error = ENOENT syscall string | TypeError

record Stats =
  st_size :: nat

definition path_join :: "string \<Rightarrow> string \<Rightarrow> path" where
  "path_join dir name = (dir, name)"

definition single_component :: "string \<Rightarrow> bool" where
  "single_component name \<longleftrightarrow> CHR ''/'' \<notin> set name \<and> CHR 0x5C \<notin> set name"

definition path_string :: "path \<Rightarrow> string" where
  "path_string p = fst p @ ''/'' @ snd p"

definition existsSync :: "filesystem \<Rightarrow> path \<Rightarrow> bool" where
  "existsSync fs p =
     (case fs (fst p) of
        None \<Rightarrow> False
      | Some entries \<Rightarrow> map_of entries (snd p) \<noteq> None)"

definition statSync :: "filesystem \<Rightarrow> path \<Rightarrow> error + Stats" where
  "statSync fs p =
     (case fs (fst p) of
        None \<Rightarrow> Inl (ENOENT stat (path_string p))
      | Some entries \<Rightarrow>
          (case map_of entries (snd p) of
             None \<Rightarrow> Inl (ENOENT stat (path_string p))
           | Some n \<Rightarrow> Inr \<lparr>st_size = n\<rparr>))"

definition exact_sizes :: "filesystem \<Rightarrow> string \<Rightarrow> bool" where
  "exact_sizes fs dir =
     (case fs dir of
        None \<Rightarrow> True
      | Some entries \<Rightarrow> list_all (\<lambda>e. snd e < 2 ^ 53) entries)"

definition readdirSync :: "filesystem \<Rightarrow> string \<Rightarrow> error + string list" where
  "readdirSync fs dir =
     (case fs dir of
        None \<Rightarrow> Inl (ENOENT scandir dir)
      | Some entries \<Rightarrow> Inr (map fst entries))"

section \<open>Strings\<close>

text \<open>
  Strings are byte lists; the emoji of the progress lines are written as their UTF-8 bytes.
  \<^verbatim>\<open>String.prototype.includes\<close> is a search for a contiguous substring.
\<close>

fun str_includes :: "string \<Rightarrow> string \<Rightarrow> bool" where
  "str_includes [] sub = (sub = [])"
| "str_includes (c # cs) sub = (prefix sub (c # cs) \<or> str_includes cs sub)"

definition digit :: "nat \<Rightarrow> char" where
  "digit n = ''0123456789'' ! n"

fun toString :: "nat \<Rightarrow> string" where
  "toString n = (if n < 10 then [digit n] else toString (n div 10) @ [digit (n mod 10)])"

declare toString.simps [simp del]

fun join :: "string list \<Rightarrow> string \<Rightarrow> string" where
  "join [] sep = []"
| "join [x] sep = x"
| "join (x # y # ys) sep = x @ sep @ join (y # ys) sep"

definition emoji_ruler :: string where
  "emoji_ruler = [CHR 0xF0, CHR 0x9F, CHR 0x93, CHR 0x8F]"

definition emoji_clipboard :: string where
  "emoji_clipboard = [CHR 0xF0, CHR 0x9F, CHR 0x93, CHR 0x8B]"

definition emoji_palette :: string where
  "emoji_palette = [CHR 0xF0, CHR 0x9F, CHR 0x8E, CHR 0xA8]"

definition emoji_bulb :: string where
  "emoji_bulb = [CHR 0xF0, CHR 0x9F, CHR 0x92, CHR 0xA1]"

definition emoji_siren :: string where
  "emoji_siren = [CHR 0xF0, CHR 0x9F, CHR 0x9A, CHR 0xA8]"

definition emoji_warning :: string where
  "emoji_warning = [CHR 0xE2, CHR 0x9A, CHR 0xA0, CHR 0xEF, CHR 0xB8, CHR 0x8F]"

definition emoji_memo :: string where
  "emoji_memo = [CHR 0xF0, CHR 0x9F, CHR 0x93, CHR 0x9D]"

definition emoji_phone :: string where
  "emoji_phone = [CHR 0xF0, CHR 0x9F, CHR 0x93, CHR 0xB1]"

definition emoji_rocket :: string where
  "emoji_rocket = [CHR 0xF0, CHR 0x9F, CHR 0x9A, CHR 0x80]"

definition emoji_chart :: string where
  "emoji_chart = [CHR 0xF0, CHR 0x9F, CHR 0x93, CHR 0x8A]"

definition emoji_target :: string where
  "emoji_target = [CHR 0xF0, CHR 0x9F, CHR 0x8E, CHR 0xAF]"

definition newline :: string where
  "newline = [CHR 0x0A]"

section \<open>Issues and the analyzer\<close>

datatype severity = HIGH | MEDIUM | LOW

datatype issue_type =
    MISSING_DEVICE_SUPPORT
  | LAYOUT_INCONSISTENCY
  | MISSING_BASELINE
  | MOBILE_NAV_MISSING
  | INCOMPLETE_HOMEPAGE_TESTING

fun type_string :: "issue_type \<Rightarrow> string" where
  "type_string MISSING_DEVICE_SUPPORT = ''MISSING_DEVICE_SUPPORT''"
| "type_string LAYOUT_INCONSISTENCY = ''LAYOUT_INCONSISTENCY''"
| "type_string MISSING_BASELINE = ''MISSING_BASELINE''"
| "type_string MOBILE_NAV_MISSING = ''MOBILE_NAV_MISSING''"
| "type_string INCOMPLETE_HOMEPAGE_TESTING = ''INCOMPLETE_HOMEPAGE_TESTING''"

text \<open>
  An issue is the object literal pushed on \<^verbatim>\<open>this.issues\<close>. A property that the literal
  does not have is \<open>None\<close>. The \<^verbatim>\<open>sizes\<close> property holds the size object of the page, with
  its keys in insertion order.
\<close>

record issue =
  type :: issue_type
  page :: "string option"
  severity :: severity
  description :: string
  devices :: "string list option"
  device :: "string option"
  sizes :: "(string \<times> nat) list option"
  filename :: "string option"

text \<open>
  The class \<^verbatim>\<open>VisualAnalyzer\<close>. The page list of the constructor is a literal that the
  operator edits by hand, so the constructor takes it as its parameter; the literal of the
  repository is \<open>reference_pages\<close>.
\<close>

record VisualAnalyzer =
  baselinesDir :: string
  devices :: "string list"
  pages :: "string list"
  issues :: "issue list"

definition reference_pages :: "string list" where
  "reference_pages =
     [''addpagehere'', ''addpagehere'', ''addpagehere'', ''addpagehere'', ''addpagehere'']"

definition constructor :: "string list \<Rightarrow> VisualAnalyzer" where
  "constructor ps =
     \<lparr>baselinesDir = ''visual-tests/baselines'',
      devices = [''Mobile'', ''Mobile-Large'', ''Tablet'', ''Desktop''],
      pages = ps,
      issues = []\<rparr>"

text \<open>
  A running process is the analyzer instance together with what has been written to the
  standard output (one element for each \<^verbatim>\<open>console.log\<close> call) and to the standard error
  (one element for each \<^verbatim>\<open>console.error\<close> call). A method returns its completion, which is
  \<open>Inl\<close> of the error it threw or \<open>Inr\<close> of its value, and the process as the method left it.
\<close>

record process =
  analyzer :: VisualAnalyzer
  stdout :: "string list"
  stderr :: "error list"

definition console_log :: "string \<Rightarrow> process \<Rightarrow> process" where
  "console_log s p = p\<lparr>stdout := stdout p @ [s]\<rparr>"

definition console_error :: "error \<Rightarrow> process \<Rightarrow> process" where
  "console_error e p = p\<lparr>stderr := stderr p @ [e]\<rparr>"

definition push :: "issue \<Rightarrow> process \<Rightarrow> process" where
  "push i p = p\<lparr>analyzer := (analyzer p)\<lparr>issues := issues (analyzer p) @ [i]\<rparr>\<rparr>"

text \<open>
  \<^verbatim>\<open>Array.prototype.forEach\<close> with a callback that may throw: the loop stops at the first
  throw and the state is the one the callback left.
\<close>

fun forEach :: "'a list \<Rightarrow> ('a \<Rightarrow> 's \<Rightarrow> (error + unit) \<times> 's) \<Rightarrow> 's \<Rightarrow> (error + unit) \<times> 's" where
  "forEach [] f s = (Inr (), s)"
| "forEach (x # xs) f s =
     (case f x s of
        (Inl e, s') \<Rightarrow> (Inl e, s')
      | (Inr u, s') \<Rightarrow> forEach xs f s')"

section \<open>JavaScript numbers\<close>

text \<open>
  The quotient \<^verbatim>\<open>max / min\<close> of two byte sizes is an IEEE 754 double: the exact quotient
  rounded to 53 significant bits, ties to even; a positive size divided by zero is
  \<^verbatim>\<open>Infinity\<close> and zero divided by zero is \<^verbatim>\<open>NaN\<close>. A finite double is represented by
  the rational number it denotes. For operands below \<open>2^53\<close> the quotient is neither
  subnormal nor does it overflow, so the rounding below is the whole of the division.
\<close>

datatype number = NaN | Infinity | Finite rat

definition round_half_even :: "rat \<Rightarrow> int" where
  "round_half_even x =
     (let f = \<lfloor>x\<rfloor>; d = x - of_int f
      in if d < 1 / 2 then f
         else if 1 / 2 < d then f + 1
         else if even f then f else f + 1)"

definition binary_exponent :: "nat \<Rightarrow> nat \<Rightarrow> int" where
  "binary_exponent a b =
     (if b \<le> a then int (floorlog 2 (a div b)) - 1
      else - int (floorlog 2 ((b - 1) div a)))"

definition number_divide :: "nat \<Rightarrow> nat \<Rightarrow> number" where
  "number_divide a b =
     (if b = 0 then (if a = 0 then NaN else Infinity)
      else if a = 0 then Finite 0
      else let ulp = 2 powi (binary_exponent a b - 52)
           in Finite (of_int (round_half_even (of_nat a / of_nat b / ulp)) * ulp))"

fun greater_than :: "number \<Rightarrow> rat \<Rightarrow> bool" where
  "greater_than NaN y = False"
| "greater_than Infinity y = True"
| "greater_than (Finite x) y = (y < x)"

text \<open>
  \<^verbatim>\<open>Number.prototype.toFixed(f)\<close> takes the integer \<open>n\<close> with \<open>n / 10^f\<close> nearest to the
  number, the larger one of two, and prints it with \<open>f\<close> digits after the point. This is
  the behaviour for a number that is not negative and below \<open>10^21\<close>.
\<close>

definition toFixed :: "number \<Rightarrow> nat \<Rightarrow> string" where
  "toFixed x f =
     (case x of
        NaN \<Rightarrow> ''NaN''
      | Infinity \<Rightarrow> ''Infinity''
      | Finite r \<Rightarrow>
          (let n = nat \<lfloor>r * 10 ^ f + 1 / 2\<rfloor>;
               int_part = toString (n div 10 ^ f);
               frac_part = toString (n mod 10 ^ f)
           in if f = 0 then int_part
              else int_part @ ''.'' @ replicate (f - length frac_part) (CHR ''0'') @ frac_part))"

text \<open>
  \<^verbatim>\<open>Math.max\<close> and \<^verbatim>\<open>Math.min\<close> of a spread array. The source calls them on an array
  of more than one size only.
\<close>

definition Math_max :: "nat list \<Rightarrow> nat" where
  "Math_max xs = Max (set xs)"

definition Math_min :: "nat list \<Rightarrow> nat" where
  "Math_min xs = Min (set xs)"

text \<open>
  The operand of \<^verbatim>\<open>!pageSizes[d]\<close>: a property that is absent reads as \<^verbatim>\<open>undefined\<close>,
  which is falsy, and so is the number zero.
\<close>

fun falsy :: "nat option \<Rightarrow> bool" where
  "falsy None = True"
| "falsy (Some n) = (n = 0)"

section \<open>Phase 1: \<^verbatim>\<open>analyzeSizes\<close>\<close>

text \<open>
  The local object \<^verbatim>\<open>sizes\<close> maps a page name to the size object of the page, which maps
  a device name to a byte size. Both are association lists in insertion order; assigning
  to a key that is present keeps its place. Reading a property of \<^verbatim>\<open>undefined\<close> throws a
  \<^verbatim>\<open>TypeError\<close>. An association list is what a JavaScript object is for keys that are
  neither integer-like nor names of properties inherited from \<^verbatim>\<open>Object.prototype\<close>; the
  four device names of the constructor are such keys, and the theorems about Phase 1 are
  stated for them. A page name is a key of \<^verbatim>\<open>sizes\<close> that is assigned before it is read, so
  an inherited property of that name is shadowed. The one exception is the page name
  \<^verbatim>\<open>__proto__\<close>: assigning to it sets the prototype of \<^verbatim>\<open>sizes\<close> and creates no key, while
  \<^verbatim>\<open>sizes[page]\<close> reads and writes the assigned object as for any other name. A statement
  about the keys of \<^verbatim>\<open>sizes\<close> therefore excludes this name.
\<close>

type_synonym page_sizes = "(string \<times> nat) list"

definition missing_device_support :: "string \<Rightarrow> string list \<Rightarrow> issue" where
  "missing_device_support page_name missing =
     \<lparr>type = MISSING_DEVICE_SUPPORT,
      page = Some page_name,
      severity = HIGH,
      description = page_name @ '' page missing on some devices'',
      issue.devices = Some missing,
      device = None,
      sizes = None,
      filename = None\<rparr>"

definition layout_inconsistency :: "string \<Rightarrow> number \<Rightarrow> page_sizes \<Rightarrow> issue" where
  "layout_inconsistency page_name ratio pageSizes =
     \<lparr>type = LAYOUT_INCONSISTENCY,
      page = Some page_name,
      severity = MEDIUM,
      description = ''Extreme content differences across devices ('' @ toFixed ratio 1
                    @ ''x variation)'',
      issue.devices = None,
      device = None,
      sizes = Some pageSizes,
      filename = None\<rparr>"

definition analyzeSizes_stat ::
  "filesystem \<Rightarrow> string \<Rightarrow> string \<Rightarrow> string \<Rightarrow> (string \<times> page_sizes) list
     \<Rightarrow> (error + unit) \<times> (string \<times> page_sizes) list" where
  "analyzeSizes_stat fs dir page_name device_name sizes_obj =
     (let file_name = device_name @ ''-'' @ page_name @ ''-baseline.png'';
          filepath = path_join dir file_name
      in if existsSync fs filepath
         then (case statSync fs filepath of
                 Inl e \<Rightarrow> (Inl e, sizes_obj)
               | Inr stats \<Rightarrow>
                   (case map_of sizes_obj page_name of
                      None \<Rightarrow> (Inl TypeError, sizes_obj)
                    | Some pageSizes \<Rightarrow>
                        (Inr (),
                         AList.update page_name
                           (AList.update device_name (st_size stats) pageSizes) sizes_obj)))
         else (Inr (), sizes_obj))"

definition analyzeSizes_collect ::
  "filesystem \<Rightarrow> VisualAnalyzer \<Rightarrow> string \<Rightarrow> (string \<times> page_sizes) list
     \<Rightarrow> (error + unit) \<times> (string \<times> page_sizes) list" where
  "analyzeSizes_collect fs this page_name sizes_obj =
     forEach (devices this) (analyzeSizes_stat fs (baselinesDir this) page_name)
       (AList.update page_name [] sizes_obj)"

definition analyzeSizes_check ::
  "(string \<times> page_sizes) list \<Rightarrow> string \<Rightarrow> process \<Rightarrow> (error + unit) \<times> process" where
  "analyzeSizes_check sizes_obj page_name p =
     (case map_of sizes_obj page_name of
        None \<Rightarrow> (Inl TypeError, p)
      | Some pageSizes \<Rightarrow>
          (let deviceSizes = pageSizes;
               p1 = (if length deviceSizes < 4
                     then push (missing_device_support page_name
                                  (filter (\<lambda>d. falsy (map_of pageSizes d))
                                     (devices (analyzer p)))) p
                     else p);
               sizes_array = map snd pageSizes;
               p2 = (if 1 < length sizes_array
                     then (let max_size = Math_max sizes_array;
                               min_size = Math_min sizes_array;
                               ratio = number_divide max_size min_size
                           in if greater_than ratio 3
                              then push (layout_inconsistency page_name ratio pageSizes) p1
                              else p1)
                     else p1)
           in (Inr (), p2)))"

definition analyzeSizes :: "filesystem \<Rightarrow> process \<Rightarrow> (error + unit) \<times> process" where
  "analyzeSizes fs p0 =
     (let p1 = console_log (emoji_ruler @ '' Analyzing screenshot file sizes across devices...'') p0
      in case forEach (pages (analyzer p1)) (analyzeSizes_collect fs (analyzer p1)) [] of
           (Inl e, sizes_obj) \<Rightarrow> (Inl e, p1)
         | (Inr u, sizes_obj) \<Rightarrow>
             (case forEach (pages (analyzer p1)) (analyzeSizes_check sizes_obj) p1 of
                (Inl e, p2) \<Rightarrow> (Inl e, p2)
              | (Inr u, p2) \<Rightarrow>
                  (Inr (),
                   console_log (''OK--> Size analysis complete. Found ''
                                @ toString (length (issues (analyzer p2)))
                                @ '' potential issues.'' @ newline) p2)))"

section \<open>Phase 2: \<^verbatim>\<open>checkMissingFiles\<close>\<close>

definition missing_baseline :: "string \<Rightarrow> string \<Rightarrow> string \<Rightarrow> issue" where
  "missing_baseline page_name device_name file_name =
     \<lparr>type = MISSING_BASELINE,
      page = Some page_name,
      severity = HIGH,
      description = ''Missing baseline for '' @ device_name @ '' '' @ page_name,
      issue.devices = None,
      device = Some device_name,
      sizes = None,
      filename = Some file_name\<rparr>"

definition checkMissingFiles_page ::
  "filesystem \<Rightarrow> string \<Rightarrow> string \<Rightarrow> nat \<times> process \<Rightarrow> nat \<times> process" where
  "checkMissingFiles_page fs device_name page_name s =
     (let (missing, p) = s;
          file_name = device_name @ ''-'' @ page_name @ ''-baseline.png'';
          filepath = path_join (baselinesDir (analyzer p)) file_name
      in if \<not> existsSync fs filepath
         then (missing + 1, push (missing_baseline page_name device_name file_name) p)
         else (missing, p))"

definition checkMissingFiles_device ::
  "filesystem \<Rightarrow> string \<Rightarrow> nat \<times> process \<Rightarrow> nat \<times> process" where
  "checkMissingFiles_device fs device_name s =
     fold (checkMissingFiles_page fs device_name) (pages (analyzer (snd s))) s"

definition checkMissingFiles :: "filesystem \<Rightarrow> process \<Rightarrow> (error + unit) \<times> process" where
  "checkMissingFiles fs p0 =
     (let p1 = console_log (emoji_clipboard @ '' Checking for missing baseline files...'') p0;
          (missing, p2) = fold (checkMissingFiles_device fs) (devices (analyzer p1)) (0, p1)
      in (Inr (),
          console_log (''OK--> File check complete. '' @ toString missing @ '' missing files.''
                       @ newline) p2))"

section \<open>Phase 3: \<^verbatim>\<open>analyzeLayoutPatterns\<close>\<close>

definition mobile_nav_missing :: issue where
  "mobile_nav_missing =
     \<lparr>type = MOBILE_NAV_MISSING,
      page = None,
      severity = HIGH,
      description = ''No mobile navigation screenshots found - hamburger menu testing required'',
      issue.devices = None,
      device = None,
      sizes = None,
      filename = None\<rparr>"

definition incomplete_homepage_testing :: issue where
  "incomplete_homepage_testing =
     \<lparr>type = INCOMPLETE_HOMEPAGE_TESTING,
      page = None,
      severity = MEDIUM,
      description = ''Homepage not tested on all device sizes'',
      issue.devices = None,
      device = None,
      sizes = None,
      filename = None\<rparr>"

definition analyzeLayoutPatterns :: "filesystem \<Rightarrow> process \<Rightarrow> (error + unit) \<times> process" where
  "analyzeLayoutPatterns fs p0 =
     (let p1 = console_log (emoji_palette @ '' Analyzing layout patterns for 2025 best practices...'') p0
      in case readdirSync fs (baselinesDir (analyzer p1)) of
           Inl e \<Rightarrow> (Inl e, p1)
         | Inr files \<Rightarrow>
             (let mobileNavFiles =
                    filter (\<lambda>file. str_includes file ''nav'' \<and> str_includes file ''Mobile'') files;
                  p2 = (if length mobileNavFiles = 0 then push mobile_nav_missing p1 else p1)
              in case readdirSync fs (baselinesDir (analyzer p2)) of
                   Inl e \<Rightarrow> (Inl e, p2)
                 | Inr files2 \<Rightarrow>
                     (let homepageFiles =
                            filter (\<lambda>file. str_includes file ''homepage''
                                             \<and> str_includes file ''baseline'') files2;
                          p3 = (if length homepageFiles < 4
                                then push incomplete_homepage_testing p2 else p2)
                      in (Inr (),
                          console_log (''OK-> Pattern analysis complete.'' @ newline) p3))))"

section \<open>Phase 4: \<^verbatim>\<open>generateRecommendations\<close>\<close>

definition log_critical :: "nat \<times> issue \<Rightarrow> process \<Rightarrow> process" where
  "log_critical x p =
     (let (i, an_issue) = x;
          p1 = console_log (toString (i + 1) @ ''. '' @ type_string (type an_issue) @ '': ''
                            @ description an_issue) p
      in case issue.devices an_issue of
           Some ds \<Rightarrow> console_log (''   Missing devices: '' @ join ds '', '') p1
         | None \<Rightarrow> p1)"

definition log_medium :: "nat \<times> issue \<Rightarrow> process \<Rightarrow> process" where
  "log_medium x p =
     (let (i, an_issue) = x
      in console_log (toString (i + 1) @ ''. '' @ type_string (type an_issue) @ '': ''
                      @ description an_issue) p)"

definition log_all :: "string list \<Rightarrow> process \<Rightarrow> process" where
  "log_all ls p = fold console_log ls p"

definition generateRecommendations :: "process \<Rightarrow> (error + unit) \<times> process" where
  "generateRecommendations p0 =
     (let p1 = console_log (emoji_bulb @ '' Generating 2025 Mobile-First Recommendations...''
                            @ newline) p0;
          critical = filter (\<lambda>i. severity i = HIGH) (issues (analyzer p1));
          medium = filter (\<lambda>i. severity i = MEDIUM) (issues (analyzer p1));
          low = filter (\<lambda>i. severity i = LOW) (issues (analyzer p1));
          p2 = console_log (emoji_siren @ '' CRITICAL ISSUES (Fix First):'') p1;
          p3 = fold log_critical (enumerate 0 critical) p2;
          p4 = console_log (newline @ emoji_warning @ ''  MEDIUM PRIORITY ISSUES:'') p3;
          p5 = fold log_medium (enumerate 0 medium) p4;
          p6 = console_log (newline @ emoji_memo @ '' RECOMMENDED FIXES FOR 2025 STANDARDS:''
                            @ newline) p5;
          p7 = (if 0 < length critical
                then log_all
                  [''1. '' @ emoji_phone @ '' MOBILE-FIRST RESPONSIVE FIXES:'',
                   ''   - Implement consistent mobile navigation across all device sizes'',
                   ''   - Ensure hamburger menu functionality on Mobile/Mobile-Large'',
                   ''   - Add proper touch targets (44px minimum) for mobile interactions'',
                   ''   - Implement fluid typography with clamp() for consistent scaling''] p6
                else p6);
          p8 = (if 0 < length medium
                then log_all
                  [newline @ ''2. '' @ emoji_palette @ '' LAYOUT CONSISTENCY FIXES:'',
                   ''   - Standardize content hierarchy across device breakpoints'',
                   ''   - Implement CSS Grid/Flexbox for consistent layouts'',
                   ''   - Add proper spacing scales using CSS custom properties'',
                   ''   - Ensure consistent component behavior across viewports''] p7
                else p7);
          p9 = log_all
                 [newline @ ''3. '' @ emoji_rocket @ '' 2025 PERFORMANCE OPTIMIZATIONS:'',
                  ''   - Implement responsive images with next/image'',
                  ''   - Add proper loading states for better perceived performance'',
                  ''   - Use CSS container queries for component-level responsiveness'',
                  ''   - Implement proper focus management for accessibility''] p8;
          p10 = log_all
                  [newline @ emoji_chart @ '' ANALYSIS SUMMARY:'',
                   ''   Critical Issues: '' @ toString (length critical),
                   ''   Medium Issues: '' @ toString (length medium),
                   ''   Total Issues: '' @ toString (length (issues (analyzer p9))),
                   ''   Devices Tested: '' @ toString (length (devices (analyzer p9))),
                   ''   Pages Analyzed: '' @ toString (length (pages (analyzer p9)))] p9
      in (Inr (), p10))"

section \<open>\<^verbatim>\<open>analyze\<close> and the entry point\<close>

definition analyze :: "filesystem \<Rightarrow> process \<Rightarrow> (error + issue list) \<times> process" where
  "analyze fs p0 =
     (let p1 = console_log ''Starting Cross-Device Visual Analysis...'' p0;
          p2 = console_log (''2025 Mobile-First Responsive Design Standards Check'' @ newline) p1
      in case analyzeSizes fs p2 of
           (Inl e, p3) \<Rightarrow> (Inl e, p3)
         | (Inr u, p3) \<Rightarrow>
             (case checkMissingFiles fs p3 of
                (Inl e, p4) \<Rightarrow> (Inl e, p4)
              | (Inr u, p4) \<Rightarrow>
                  (case analyzeLayoutPatterns fs p4 of
                     (Inl e, p5) \<Rightarrow> (Inl e, p5)
                   | (Inr u, p5) \<Rightarrow>
                       (case generateRecommendations p5 of
                          (Inl e, p6) \<Rightarrow> (Inl e, p6)
                        | (Inr u, p6) \<Rightarrow> (Inr (issues (analyzer p6)), p6)))))"

definition completion_line :: string where
  "completion_line = newline @ emoji_target @ '' Visual analysis complete! Ready for fixes.''
                     @ newline"

definition start :: "string list \<Rightarrow> process" where
  "start ps = \<lparr>analyzer = constructor ps, stdout = [], stderr = []\<rparr>"

definition main :: "string list \<Rightarrow> filesystem \<Rightarrow> process" where
  "main ps fs =
     (case analyze fs (start ps) of
        (Inr found, p) \<Rightarrow> console_log completion_line p
      | (Inl e, p) \<Rightarrow> console_error e p)"

section \<open>The issues a phase is expected to append\<close>

text \<open>
  The following functions are not part of the program. They describe, from the state of
  the file system alone, the issues that each phase appends, and are what the theorems
  compare the program with. \<open>add_issues\<close> is the process after some issues have been
  appended to \<^verbatim>\<open>this.issues\<close> and nothing else has changed.
\<close>

definition add_issues :: "issue list \<Rightarrow> process \<Rightarrow> process" where
  "add_issues new p = p\<lparr>analyzer := (analyzer p)\<lparr>issues := issues (analyzer p) @ new\<rparr>\<rparr>"

text \<open>
  \<open>recorded_sizes\<close> is the size object of a page after the first loop of
  \<^verbatim>\<open>analyzeSizes\<close>: the devices whose baseline file exists, in the order of the device
  list, each with the byte size of its file. \<open>record_size\<close> is one assignment
  \<^verbatim>\<open>sizes[page][device] = stats.size\<close>, made when the file exists.
\<close>

definition file_size :: "filesystem \<Rightarrow> string \<Rightarrow> string \<Rightarrow> nat option" where
  "file_size fs dir name = (case fs dir of None \<Rightarrow> None | Some entries \<Rightarrow> map_of entries name)"

definition recorded_sizes :: "filesystem \<Rightarrow> string \<Rightarrow> string list \<Rightarrow> string \<Rightarrow> page_sizes" where
  "recorded_sizes fs dir devs pg =
     List.map_filter
       (\<lambda>d. map_option (Pair d) (file_size fs dir (d @ ''-'' @ pg @ ''-baseline.png'')))
       devs"

definition coverage_issue :: "string list \<Rightarrow> string \<Rightarrow> page_sizes \<Rightarrow> issue list" where
  "coverage_issue devs pg pageSizes =
     (if length pageSizes < 4
      then [missing_device_support pg (filter (\<lambda>d. falsy (map_of pageSizes d)) devs)]
      else [])"

definition size_ratio :: "page_sizes \<Rightarrow> number" where
  "size_ratio pageSizes =
     number_divide (Math_max (map snd pageSizes)) (Math_min (map snd pageSizes))"

definition ratio_issue :: "string \<Rightarrow> page_sizes \<Rightarrow> issue list" where
  "ratio_issue pg pageSizes =
     (if 1 < length pageSizes \<and> greater_than (size_ratio pageSizes) 3
      then [layout_inconsistency pg (size_ratio pageSizes) pageSizes]
      else [])"

definition page_issues :: "filesystem \<Rightarrow> string \<Rightarrow> string list \<Rightarrow> string \<Rightarrow> issue list" where
  "page_issues fs dir devs pg =
     coverage_issue devs pg (recorded_sizes fs dir devs pg)
     @ ratio_issue pg (recorded_sizes fs dir devs pg)"

definition phase1_issues :: "filesystem \<Rightarrow> VisualAnalyzer \<Rightarrow> issue list" where
  "phase1_issues fs this =
     concat (map (page_issues fs (baselinesDir this) (devices this)) (pages this))"

definition record_size :: "filesystem \<Rightarrow> string \<Rightarrow> string \<Rightarrow> string \<Rightarrow> page_sizes \<Rightarrow> page_sizes" where
  "record_size fs dir pg d cur =
     (case file_size fs dir (d @ ''-'' @ pg @ ''-baseline.png'') of
        None \<Rightarrow> cur
      | Some n \<Rightarrow> AList.update d n cur)"

definition missing_baselines :: "filesystem \<Rightarrow> string \<Rightarrow> string list \<Rightarrow> string \<Rightarrow> issue list" where
  "missing_baselines fs dir pgs d =
     [missing_baseline pg d (d @ ''-'' @ pg @ ''-baseline.png'').
        pg \<leftarrow> pgs, \<not> existsSync fs (path_join dir (d @ ''-'' @ pg @ ''-baseline.png''))]"

definition phase2_issues :: "filesystem \<Rightarrow> VisualAnalyzer \<Rightarrow> issue list" where
  "phase2_issues fs this =
     concat (map (missing_baselines fs (baselinesDir this) (pages this)) (devices this))"

definition phase3_issues :: "string list \<Rightarrow> issue list" where
  "phase3_issues files =
     (if filter (\<lambda>file. str_includes file ''nav'' \<and> str_includes file ''Mobile'') files = []
      then [mobile_nav_missing] else [])
     @ (if length (filter (\<lambda>file. str_includes file ''homepage''
                                   \<and> str_includes file ''baseline'') files) < 4
        then [incomplete_homepage_testing] else [])"


text \<open>
  \<open>progress\<close> lists the lines that \<^verbatim>\<open>analyze\<close> has logged when Phase 3 reads the
  directory, \<open>summary\<close> the closing lines of the report of Phase 4. \<open>extends_stdout p q\<close>
  says that \<open>q\<close> is \<open>p\<close> after some more lines have been logged.
\<close>

definition progress :: "filesystem \<Rightarrow> VisualAnalyzer \<Rightarrow> string list" where
  "progress fs this =
     [''Starting Cross-Device Visual Analysis...'',
      ''2025 Mobile-First Responsive Design Standards Check'' @ newline,
      emoji_ruler @ '' Analyzing screenshot file sizes across devices...'',
      ''OK--> Size analysis complete. Found ''
        @ toString (length (issues this @ phase1_issues fs this))
        @ '' potential issues.'' @ newline,
      emoji_clipboard @ '' Checking for missing baseline files...'',
      ''OK--> File check complete. '' @ toString (length (phase2_issues fs this))
        @ '' missing files.'' @ newline,
      emoji_palette @ '' Analyzing layout patterns for 2025 best practices...'']"

definition extends_stdout :: "process \<Rightarrow> process \<Rightarrow> bool" where
  "extends_stdout p q \<longleftrightarrow> (\<exists>ls. q = p\<lparr>stdout := stdout p @ ls\<rparr>)"

definition summary :: "VisualAnalyzer \<Rightarrow> string list" where
  "summary this =
     [newline @ emoji_chart @ '' ANALYSIS SUMMARY:'',
      ''   Critical Issues: '' @ toString (length (filter (\<lambda>i. severity i = HIGH) (issues this))),
      ''   Medium Issues: '' @ toString (length (filter (\<lambda>i. severity i = MEDIUM) (issues this))),
      ''   Total Issues: '' @ toString (length (issues this)),
      ''   Devices Tested: '' @ toString (length (devices this)),
      ''   Pages Analyzed: '' @ toString (length (pages this))]"


section \<open>Appending issues and logging\<close>

lemma push_add_issues: "push i p = add_issues [i] p"
  by (simp add: push_def add_issues_def)

lemma add_issues_Nil [simp]: "add_issues [] p = p"
  by (simp add: add_issues_def)

lemma add_issues_add_issues [simp]: "add_issues b (add_issues a p) = add_issues (a @ b) p"
  by (simp add: add_issues_def)

lemma add_issues_console_log: "add_issues new (console_log s p) = console_log s (add_issues new p)"
  by (simp add: add_issues_def console_log_def)

lemma add_issues_sel [simp]:
  "issues (analyzer (add_issues new p)) = issues (analyzer p) @ new"
  "baselinesDir (analyzer (add_issues new p)) = baselinesDir (analyzer p)"
  "devices (analyzer (add_issues new p)) = devices (analyzer p)"
  "pages (analyzer (add_issues new p)) = pages (analyzer p)"
  "stdout (add_issues new p) = stdout p"
  "stderr (add_issues new p) = stderr p"
  by (simp_all add: add_issues_def)

lemma console_log_sel [simp]:
  "analyzer (console_log s p) = analyzer p"
  "stdout (console_log s p) = stdout p @ [s]"
  "stderr (console_log s p) = stderr p"
  by (simp_all add: console_log_def)

section \<open>Phase 1 appends the issues of each page entry\<close>

lemma existsSync_file_size:
  "existsSync fs (path_join dir name) \<longleftrightarrow> file_size fs dir name \<noteq> None"
  by (simp add: existsSync_def path_join_def file_size_def split: option.splits)

lemma statSync_file_size:
  "file_size fs dir name = Some n \<Longrightarrow> statSync fs (path_join dir name) = Inr \<lparr>st_size = n\<rparr>"
  by (auto simp: statSync_def path_join_def file_size_def split: option.splits)

lemma analyzeSizes_stat_step:
  assumes "map_of sizes_obj pg = Some cur"
  shows "analyzeSizes_stat fs dir pg d sizes_obj =
           (Inr (), AList.update pg (record_size fs dir pg d cur) sizes_obj)"
proof (cases "file_size fs dir (d @ ''-'' @ pg @ ''-baseline.png'')")
  case None
  then show ?thesis
    using assms
    by (simp add: analyzeSizes_stat_def existsSync_file_size record_size_def update_triv)
next
  case (Some n)
  then show ?thesis
    using assms
    by (simp add: analyzeSizes_stat_def existsSync_file_size statSync_file_size record_size_def)
qed

lemma forEach_analyzeSizes_stat:
  assumes "map_of sizes_obj pg = Some cur"
  shows "forEach devs (analyzeSizes_stat fs dir pg) sizes_obj =
           (Inr (), AList.update pg (fold (record_size fs dir pg) devs cur) sizes_obj)"
  using assms
proof (induction devs arbitrary: sizes_obj cur)
  case Nil
  then show ?case by (simp add: update_triv)
next
  case (Cons d devs)
  have "map_of (AList.update pg (record_size fs dir pg d cur) sizes_obj) pg
          = Some (record_size fs dir pg d cur)"
    by (simp add: update_conv')
  from Cons.IH [OF this] show ?case
    by (simp add: analyzeSizes_stat_step [OF Cons.prems])
qed

lemma analyzeSizes_collect_eq:
  "analyzeSizes_collect fs this pg sizes_obj =
     (Inr (), AList.update pg (fold (record_size fs (baselinesDir this) pg) (devices this) [])
                sizes_obj)"
proof -
  have "map_of (AList.update pg [] sizes_obj) pg = Some []"
    by (simp add: update_conv')
  from forEach_analyzeSizes_stat [OF this] show ?thesis
    by (simp add: analyzeSizes_collect_def)
qed

lemma forEach_analyzeSizes_collect:
  "forEach pgs (analyzeSizes_collect fs this) sizes_obj =
     (Inr (),
      fold (\<lambda>pg. AList.update pg (fold (record_size fs (baselinesDir this) pg) (devices this) []))
        pgs sizes_obj)"
  by (induction pgs arbitrary: sizes_obj) (simp_all add: analyzeSizes_collect_eq)

lemma map_of_fold_update:
  "map_of (fold (\<lambda>k. AList.update k (f k)) ks al) k =
     (if k \<in> set ks then Some (f k) else map_of al k)"
  by (induction ks arbitrary: al) (auto simp: update_conv')

lemma update_fresh: "k \<notin> fst ` set al \<Longrightarrow> AList.update k v al = al @ [(k, v)]"
  by (induction al) auto

lemma fold_record_size:
  assumes "distinct devs" "set devs \<inter> fst ` set cur = {}"
  shows "fold (record_size fs dir pg) devs cur =
           cur @ List.map_filter
                   (\<lambda>d. map_option (Pair d) (file_size fs dir (d @ ''-'' @ pg @ ''-baseline.png'')))
                   devs"
  using assms
proof (induction devs arbitrary: cur)
  case Nil
  then show ?case by (simp add: map_filter_simps)
next
  case (Cons d devs)
  show ?case
  proof (cases "file_size fs dir (d @ ''-'' @ pg @ ''-baseline.png'')")
    case None
    with Cons show ?thesis by (simp add: record_size_def map_filter_simps)
  next
    case (Some n)
    have fresh: "d \<notin> fst ` set cur" using Cons.prems by auto
    have "set devs \<inter> fst ` set (cur @ [(d, n)]) = {}" using Cons.prems by auto
    with Cons.IH [of "cur @ [(d, n)]"] Cons.prems Some fresh show ?thesis
      by (simp add: record_size_def map_filter_simps update_fresh)
  qed
qed

lemma fold_record_size_recorded:
  "distinct devs \<Longrightarrow> fold (record_size fs dir pg) devs [] = recorded_sizes fs dir devs pg"
  by (simp add: fold_record_size recorded_sizes_def)

lemma analyzeSizes_check_step:
  assumes "map_of sizes_obj pg = Some pageSizes"
  shows "analyzeSizes_check sizes_obj pg p =
           (Inr (), add_issues (coverage_issue (devices (analyzer p)) pg pageSizes
                                @ ratio_issue pg pageSizes) p)"
  using assms
  by (simp add: analyzeSizes_check_def coverage_issue_def ratio_issue_def size_ratio_def
      push_add_issues Let_def)

lemma forEach_analyzeSizes_check:
  assumes "\<And>pg. pg \<in> set pgs \<Longrightarrow> map_of sizes_obj pg = Some (f pg)"
  shows "forEach pgs (analyzeSizes_check sizes_obj) p =
           (Inr (), add_issues (concat (map (\<lambda>pg. coverage_issue (devices (analyzer p)) pg (f pg)
                                                   @ ratio_issue pg (f pg)) pgs)) p)"
  using assms
proof (induction pgs arbitrary: p)
  case Nil
  then show ?case by simp
next
  case (Cons pg pgs)
  have here: "map_of sizes_obj pg = Some (f pg)" using Cons.prems by simp
  have rest: "\<And>pg'. pg' \<in> set pgs \<Longrightarrow> map_of sizes_obj pg' = Some (f pg')"
    using Cons.prems by simp
  show ?case
    by (simp add: analyzeSizes_check_step [OF here] Cons.IH [OF rest])
qed

lemma analyzeSizes_general:
  fixes fs :: filesystem and p :: process
  defines "recorded \<equiv> \<lambda>pg. fold (record_size fs (baselinesDir (analyzer p)) pg)
                               (devices (analyzer p)) []"
  defines "new \<equiv> concat (map (\<lambda>pg. coverage_issue (devices (analyzer p)) pg (recorded pg)
                                       @ ratio_issue pg (recorded pg)) (pages (analyzer p)))"
  shows "analyzeSizes fs p =
     (Inr (),
      console_log (''OK--> Size analysis complete. Found ''
                   @ toString (length (issues (analyzer p) @ new))
                   @ '' potential issues.'' @ newline)
        (add_issues new
           (console_log (emoji_ruler @ '' Analyzing screenshot file sizes across devices...'') p)))"
proof -
  let ?p1 = "console_log (emoji_ruler @ '' Analyzing screenshot file sizes across devices...'') p"
  let ?sizes = "fold (\<lambda>pg. AList.update pg (recorded pg)) (pages (analyzer p)) []"
  have collect: "forEach (pages (analyzer p)) (analyzeSizes_collect fs (analyzer p)) []
                   = (Inr (), ?sizes)"
    by (simp add: forEach_analyzeSizes_collect recorded_def)
  have look: "\<And>pg. pg \<in> set (pages (analyzer p)) \<Longrightarrow> map_of ?sizes pg = Some (recorded pg)"
    by (simp add: map_of_fold_update)
  have check: "forEach (pages (analyzer p)) (analyzeSizes_check ?sizes) ?p1
                 = (Inr (), add_issues new ?p1)"
    by (simp add: forEach_analyzeSizes_check [OF look] new_def)
  show ?thesis
    by (simp add: analyzeSizes_def Let_def collect check)
qed

lemma analyzeSizes_eq:
  assumes "distinct (devices (analyzer p))"
  shows "analyzeSizes fs p =
     (Inr (),
      console_log (''OK--> Size analysis complete. Found ''
                   @ toString (length (issues (analyzer p) @ phase1_issues fs (analyzer p)))
                   @ '' potential issues.'' @ newline)
        (add_issues (phase1_issues fs (analyzer p))
           (console_log (emoji_ruler @ '' Analyzing screenshot file sizes across devices...'') p)))"
  unfolding analyzeSizes_general phase1_issues_def page_issues_def [abs_def]
    fold_record_size_recorded [OF assms] ..
section \<open>Phase 2 appends the missing baselines\<close>

lemma missing_baselines_Cons:
  "missing_baselines fs dir (pg # pgs) d =
     (if existsSync fs (path_join dir (d @ ''-'' @ pg @ ''-baseline.png'')) then []
      else [missing_baseline pg d (d @ ''-'' @ pg @ ''-baseline.png'')])
     @ missing_baselines fs dir pgs d"
  by (simp add: missing_baselines_def)

lemma missing_baselines_Nil [simp]: "missing_baselines fs dir [] d = []"
  by (simp add: missing_baselines_def)

lemma checkMissingFiles_page_step:
  "checkMissingFiles_page fs d pg (m, p) =
     (if existsSync fs (path_join (baselinesDir (analyzer p)) (d @ ''-'' @ pg @ ''-baseline.png''))
      then (m, p)
      else (Suc m, add_issues [missing_baseline pg d (d @ ''-'' @ pg @ ''-baseline.png'')] p))"
  by (simp add: checkMissingFiles_page_def push_add_issues)

lemma fold_checkMissingFiles_page:
  "fold (checkMissingFiles_page fs d) pgs (m, p) =
     (m + length (missing_baselines fs (baselinesDir (analyzer p)) pgs d),
      add_issues (missing_baselines fs (baselinesDir (analyzer p)) pgs d) p)"
proof (induction pgs arbitrary: m p)
  case Nil
  show ?case by simp
next
  case (Cons pg pgs)
  show ?case
    by (simp add: checkMissingFiles_page_step Cons.IH missing_baselines_Cons)
qed

lemma checkMissingFiles_device_step:
  "checkMissingFiles_device fs d (m, p) =
     (m + length (missing_baselines fs (baselinesDir (analyzer p)) (pages (analyzer p)) d),
      add_issues (missing_baselines fs (baselinesDir (analyzer p)) (pages (analyzer p)) d) p)"
  by (simp add: checkMissingFiles_device_def fold_checkMissingFiles_page)

lemma fold_checkMissingFiles_device:
  "fold (checkMissingFiles_device fs) ds (m, p) =
     (m + length (concat (map (missing_baselines fs (baselinesDir (analyzer p)) (pages (analyzer p))) ds)),
      add_issues (concat (map (missing_baselines fs (baselinesDir (analyzer p)) (pages (analyzer p))) ds)) p)"
proof (induction ds arbitrary: m p)
  case Nil
  show ?case by simp
next
  case (Cons d ds)
  show ?case
    by (simp add: checkMissingFiles_device_step Cons.IH)
qed

lemma checkMissingFiles_eq:
  "checkMissingFiles fs p =
     (Inr (),
      console_log (''OK--> File check complete. '' @ toString (length (phase2_issues fs (analyzer p)))
                   @ '' missing files.'' @ newline)
        (add_issues (phase2_issues fs (analyzer p))
           (console_log (emoji_clipboard @ '' Checking for missing baseline files...'') p)))"
  by (simp add: checkMissingFiles_def fold_checkMissingFiles_device phase2_issues_def)

lemma missing_baseline_fields:
  "missing_baseline pg d f =
     \<lparr>type = MISSING_BASELINE, page = Some pg, severity = HIGH,
      description = ''Missing baseline for '' @ d @ '' '' @ pg,
      issue.devices = None, device = Some d, sizes = None, filename = Some f\<rparr>"
  by (simp add: missing_baseline_def)

lemma phase2_issues_comprehension:
  "phase2_issues fs this =
     [missing_baseline pg d (d @ ''-'' @ pg @ ''-baseline.png'').
        d \<leftarrow> devices this, pg \<leftarrow> pages this,
        \<not> existsSync fs (path_join (baselinesDir this) (d @ ''-'' @ pg @ ''-baseline.png''))]"
  unfolding phase2_issues_def missing_baselines_def [abs_def] by simp

lemma missing_baselines_none_exist:
  "(\<And>f. \<not> existsSync fs (path_join dir f)) \<Longrightarrow>
   missing_baselines fs dir pgs d =
     map (\<lambda>pg. missing_baseline pg d (d @ ''-'' @ pg @ ''-baseline.png'')) pgs"
  by (induction pgs) (simp_all add: missing_baselines_Cons)

section \<open>Phase 3 appends the two layout-pattern issues\<close>

lemma str_includes_sublist: "str_includes s sub \<longleftrightarrow> sublist sub s"
  by (induction s) (auto simp: sublist_Cons_right)

lemma str_includes_iff: "str_includes s sub \<longleftrightarrow> (\<exists>a b. s = a @ sub @ b)"
  by (simp add: str_includes_sublist sublist_def)

lemma readdirSync_Some: "fs dir = Some entries \<Longrightarrow> readdirSync fs dir = Inr (map fst entries)"
  by (simp add: readdirSync_def)

lemma readdirSync_None: "fs dir = None \<Longrightarrow> readdirSync fs dir = Inl (ENOENT scandir dir)"
  by (simp add: readdirSync_def)

lemma analyzeLayoutPatterns_Some:
  assumes "fs (baselinesDir (analyzer p)) = Some entries"
  shows "analyzeLayoutPatterns fs p =
     (Inr (),
      console_log (''OK-> Pattern analysis complete.'' @ newline)
        (add_issues (phase3_issues (map fst entries))
           (console_log (emoji_palette @ '' Analyzing layout patterns for 2025 best practices...'') p)))"
  using assms
  by (simp add: analyzeLayoutPatterns_def readdirSync_Some phase3_issues_def push_add_issues Let_def)

lemma analyzeLayoutPatterns_None:
  assumes "fs (baselinesDir (analyzer p)) = None"
  shows "analyzeLayoutPatterns fs p =
     (Inl (ENOENT scandir (baselinesDir (analyzer p))),
      console_log (emoji_palette @ '' Analyzing layout patterns for 2025 best practices...'') p)"
  using assms
  by (simp add: analyzeLayoutPatterns_def readdirSync_None)

lemma phase3_nav_filter:
  "filter (\<lambda>i. type i = MOBILE_NAV_MISSING) (phase3_issues files) =
     (if \<exists>file \<in> set files. str_includes file ''nav'' \<and> str_includes file ''Mobile''
      then [] else [mobile_nav_missing])"
  by (auto simp: phase3_issues_def mobile_nav_missing_def incomplete_homepage_testing_def
      filter_empty_conv)

lemma phase3_homepage_filter:
  "filter (\<lambda>i. type i = INCOMPLETE_HOMEPAGE_TESTING) (phase3_issues files) =
     (if length (filter (\<lambda>file. str_includes file ''homepage'' \<and> str_includes file ''baseline'')
                   files) < 4
      then [incomplete_homepage_testing] else [])"
  by (simp add: phase3_issues_def mobile_nav_missing_def incomplete_homepage_testing_def)

section \<open>Phase 4 only logs\<close>

lemma analyzer_add_issues:
  "analyzer (add_issues new p) = (analyzer p)\<lparr>issues := issues (analyzer p) @ new\<rparr>"
  by (simp add: add_issues_def)

lemma phase2_issues_update [simp]: "phase2_issues fs (this\<lparr>issues := x\<rparr>) = phase2_issues fs this"
  by (simp add: phase2_issues_def)

lemma log_all_eq: "log_all ls p = p\<lparr>stdout := stdout p @ ls\<rparr>"
  unfolding log_all_def
  by (induction ls arbitrary: p) (simp_all add: console_log_def)

lemma console_log_eq: "console_log s p = p\<lparr>stdout := stdout p @ [s]\<rparr>"
  by (simp add: console_log_def)

lemma extends_stdout_refl: "extends_stdout p p"
proof -
  have "p = p\<lparr>stdout := stdout p @ []\<rparr>" by simp
  then show ?thesis unfolding extends_stdout_def by blast
qed

lemma extends_stdout_trans:
  assumes "extends_stdout p q" "extends_stdout q r"
  shows "extends_stdout p r"
proof -
  from assms obtain l1 l2 where "q = p\<lparr>stdout := stdout p @ l1\<rparr>" "r = q\<lparr>stdout := stdout q @ l2\<rparr>"
    unfolding extends_stdout_def by blast
  then have "r = p\<lparr>stdout := stdout p @ (l1 @ l2)\<rparr>" by simp
  then show ?thesis unfolding extends_stdout_def by blast
qed

lemma extends_stdout_console_log: "extends_stdout p (console_log s p)"
  unfolding extends_stdout_def console_log_def by blast

lemma extends_stdout_log_all: "extends_stdout p (log_all ls p)"
  unfolding extends_stdout_def log_all_eq by blast

lemma extends_stdout_analyzer: "extends_stdout p q \<Longrightarrow> analyzer q = analyzer p"
  unfolding extends_stdout_def by auto

lemma extends_stdout_log_critical: "extends_stdout p (log_critical x p)"
proof (cases x)
  case (Pair i an_issue)
  show ?thesis
  proof (cases "issue.devices an_issue")
    case None
    with Pair show ?thesis
      by (simp add: log_critical_def extends_stdout_console_log)
  next
    case (Some ds)
    with Pair show ?thesis
      by (simp add: log_critical_def)
        (rule extends_stdout_trans [OF extends_stdout_console_log extends_stdout_console_log])
  qed
qed

lemma extends_stdout_log_medium: "extends_stdout p (log_medium x p)"
  by (cases x) (simp add: log_medium_def extends_stdout_console_log)

lemma extends_stdout_fold:
  assumes "\<And>x q. extends_stdout q (f x q)"
  shows "extends_stdout p (fold f xs p)"
proof (induction xs arbitrary: p)
  case Nil
  show ?case by (simp add: extends_stdout_refl)
next
  case (Cons x xs)
  from assms [of p x] Cons.IH [of "f x p"] show ?case
    by (simp add: extends_stdout_trans)
qed

lemma generateRecommendations_eq:
  "\<exists>ls. generateRecommendations p =
          (Inr (), p\<lparr>stdout := stdout p @ ls @ summary (analyzer p)\<rparr>)"
proof -
  define critical where "critical = filter (\<lambda>i. severity i = HIGH) (issues (analyzer p))"
  define medium where "medium = filter (\<lambda>i. severity i = MEDIUM) (issues (analyzer p))"
  define p1 where "p1 = console_log (emoji_bulb @ '' Generating 2025 Mobile-First Recommendations...''
                            @ newline) p"
  define p2 where "p2 = console_log (emoji_siren @ '' CRITICAL ISSUES (Fix First):'') p1"
  define p3 where "p3 = fold log_critical (enumerate 0 critical) p2"
  define p4 where "p4 = console_log (newline @ emoji_warning @ ''  MEDIUM PRIORITY ISSUES:'') p3"
  define p5 where "p5 = fold log_medium (enumerate 0 medium) p4"
  define p6 where "p6 = console_log (newline @ emoji_memo @ '' RECOMMENDED FIXES FOR 2025 STANDARDS:''
                            @ newline) p5"
  define p7 where "p7 = (if 0 < length critical
                then log_all
                  [''1. '' @ emoji_phone @ '' MOBILE-FIRST RESPONSIVE FIXES:'',
                   ''   - Implement consistent mobile navigation across all device sizes'',
                   ''   - Ensure hamburger menu functionality on Mobile/Mobile-Large'',
                   ''   - Add proper touch targets (44px minimum) for mobile interactions'',
                   ''   - Implement fluid typography with clamp() for consistent scaling''] p6
                else p6)"
  define p8 where "p8 = (if 0 < length medium
                then log_all
                  [newline @ ''2. '' @ emoji_palette @ '' LAYOUT CONSISTENCY FIXES:'',
                   ''   - Standardize content hierarchy across device breakpoints'',
                   ''   - Implement CSS Grid/Flexbox for consistent layouts'',
                   ''   - Add proper spacing scales using CSS custom properties'',
                   ''   - Ensure consistent component behavior across viewports''] p7
                else p7)"
  define p9 where "p9 = log_all
                 [newline @ ''3. '' @ emoji_rocket @ '' 2025 PERFORMANCE OPTIMIZATIONS:'',
                  ''   - Implement responsive images with next/image'',
                  ''   - Add proper loading states for better perceived performance'',
                  ''   - Use CSS container queries for component-level responsiveness'',
                  ''   - Implement proper focus management for accessibility''] p8"
  have e1: "extends_stdout p p1" unfolding p1_def by (rule extends_stdout_console_log)
  have e2: "extends_stdout p1 p2" unfolding p2_def by (rule extends_stdout_console_log)
  have e3: "extends_stdout p2 p3" unfolding p3_def
    by (rule extends_stdout_fold) (rule extends_stdout_log_critical)
  have e4: "extends_stdout p3 p4" unfolding p4_def by (rule extends_stdout_console_log)
  have e5: "extends_stdout p4 p5" unfolding p5_def
    by (rule extends_stdout_fold) (rule extends_stdout_log_medium)
  have e6: "extends_stdout p5 p6" unfolding p6_def by (rule extends_stdout_console_log)
  have e7: "extends_stdout p6 p7" unfolding p7_def
    by (simp add: extends_stdout_refl extends_stdout_log_all)
  have e8: "extends_stdout p7 p8" unfolding p8_def
    by (simp add: extends_stdout_refl extends_stdout_log_all)
  have e9: "extends_stdout p8 p9" unfolding p9_def by (rule extends_stdout_log_all)
  have e: "extends_stdout p p9"
    by (rule extends_stdout_trans [OF e1]) (rule extends_stdout_trans [OF e2],
        rule extends_stdout_trans [OF e3], rule extends_stdout_trans [OF e4],
        rule extends_stdout_trans [OF e5], rule extends_stdout_trans [OF e6],
        rule extends_stdout_trans [OF e7], rule extends_stdout_trans [OF e8], rule e9)
  have a1: "analyzer p1 = analyzer p" using e1 by (rule extends_stdout_analyzer)
  have a9: "analyzer p9 = analyzer p" using e by (rule extends_stdout_analyzer)
  have run: "generateRecommendations p = (Inr (), log_all (summary (analyzer p)) p9)"
    unfolding generateRecommendations_def Let_def
    unfolding p1_def [symmetric] a1 critical_def [symmetric] medium_def [symmetric]
      p2_def [symmetric] p3_def [symmetric] p4_def [symmetric] p5_def [symmetric]
      p6_def [symmetric] p7_def [symmetric] p8_def [symmetric] p9_def [symmetric] a9
    by (simp add: summary_def critical_def medium_def)
  from e obtain ls where "p9 = p\<lparr>stdout := stdout p @ ls\<rparr>"
    unfolding extends_stdout_def by blast
  with run have "generateRecommendations p =
          (Inr (), p\<lparr>stdout := stdout p @ ls @ summary (analyzer p)\<rparr>)"
    by (simp add: log_all_eq)
  then show ?thesis by blast
qed

section \<open>The run of \<^verbatim>\<open>analyze\<close>\<close>

lemma phase1_issues_update [simp]: "phase1_issues fs (this\<lparr>issues := x\<rparr>) = phase1_issues fs this"
  by (simp add: phase1_issues_def)

lemma phases_1_2:
  fixes fs :: filesystem and p :: process
  assumes "distinct (devices (analyzer p))"
  defines "p2 \<equiv> console_log (''2025 Mobile-First Responsive Design Standards Check'' @ newline)
                   (console_log ''Starting Cross-Device Visual Analysis...'' p)"
  defines "p3 \<equiv> p\<lparr>analyzer := (analyzer p)\<lparr>issues := issues (analyzer p)
                     @ phase1_issues fs (analyzer p)\<rparr>,
                 stdout := stdout p @ take 4 (progress fs (analyzer p))\<rparr>"
  defines "p4 \<equiv> p\<lparr>analyzer := (analyzer p)\<lparr>issues := issues (analyzer p)
                     @ phase1_issues fs (analyzer p) @ phase2_issues fs (analyzer p)\<rparr>,
                 stdout := stdout p @ take 6 (progress fs (analyzer p))\<rparr>"
  shows "analyzeSizes fs p2 = (Inr (), p3)"
    and "checkMissingFiles fs p3 = (Inr (), p4)"
proof -
  have d: "distinct (devices (analyzer p2))" using assms(1) by (simp add: p2_def)
  show "analyzeSizes fs p2 = (Inr (), p3)"
    by (simp add: analyzeSizes_eq [OF d])
      (simp add: p2_def p3_def add_issues_def console_log_def progress_def)
  show "checkMissingFiles fs p3 = (Inr (), p4)"
    by (simp add: checkMissingFiles_eq)
      (simp add: p3_def p4_def add_issues_def console_log_def progress_def)
qed

lemma analyze_None:
  assumes "distinct (devices (analyzer p))" and "fs (baselinesDir (analyzer p)) = None"
  shows "analyze fs p =
     (Inl (ENOENT scandir (baselinesDir (analyzer p))),
      p\<lparr>analyzer := (analyzer p)\<lparr>issues := issues (analyzer p)
              @ phase1_issues fs (analyzer p) @ phase2_issues fs (analyzer p)\<rparr>,
        stdout := stdout p @ progress fs (analyzer p)\<rparr>)"
proof -
  let ?p4 = "p\<lparr>analyzer := (analyzer p)\<lparr>issues := issues (analyzer p)
                     @ phase1_issues fs (analyzer p) @ phase2_issues fs (analyzer p)\<rparr>,
                 stdout := stdout p @ take 6 (progress fs (analyzer p))\<rparr>"
  note ph = phases_1_2 [OF assms(1), of fs]
  have none: "fs (baselinesDir (analyzer ?p4)) = None"
    using assms(2) by simp
  have 3: "analyzeLayoutPatterns fs ?p4 =
     (Inl (ENOENT scandir (baselinesDir (analyzer ?p4))),
      console_log (emoji_palette @ '' Analyzing layout patterns for 2025 best practices...'') ?p4)"
    by (rule analyzeLayoutPatterns_None [of fs ?p4, OF none])
  have "analyze fs p = (Inl (ENOENT scandir (baselinesDir (analyzer ?p4))),
      console_log (emoji_palette @ '' Analyzing layout patterns for 2025 best practices...'') ?p4)"
    by (simp only: analyze_def Let_def ph 3 prod.case sum.case)
  also have "\<dots> = (Inl (ENOENT scandir (baselinesDir (analyzer p))),
      p\<lparr>analyzer := (analyzer p)\<lparr>issues := issues (analyzer p)
              @ phase1_issues fs (analyzer p) @ phase2_issues fs (analyzer p)\<rparr>,
        stdout := stdout p @ progress fs (analyzer p)\<rparr>)"
    by (simp add: console_log_def progress_def)
  finally show ?thesis .
qed

lemma analyze_Some:
  fixes fs :: filesystem and p :: process and entries :: directory
  assumes "distinct (devices (analyzer p))" and "fs (baselinesDir (analyzer p)) = Some entries"
  defines "found \<equiv> issues (analyzer p) @ phase1_issues fs (analyzer p)
                    @ phase2_issues fs (analyzer p) @ phase3_issues (map fst entries)"
  shows "\<exists>ls. analyze fs p =
     (Inr found,
      p\<lparr>analyzer := (analyzer p)\<lparr>issues := found\<rparr>,
        stdout := stdout p @ progress fs (analyzer p) @ ls
                  @ summary ((analyzer p)\<lparr>issues := found\<rparr>)\<rparr>)"
proof -
  let ?p4 = "p\<lparr>analyzer := (analyzer p)\<lparr>issues := issues (analyzer p)
                     @ phase1_issues fs (analyzer p) @ phase2_issues fs (analyzer p)\<rparr>,
                 stdout := stdout p @ take 6 (progress fs (analyzer p))\<rparr>"
  define p5 where "p5 = p\<lparr>analyzer := (analyzer p)\<lparr>issues := found\<rparr>,
                    stdout := stdout p @ progress fs (analyzer p)
                              @ [''OK-> Pattern analysis complete.'' @ newline]\<rparr>"
  note ph = phases_1_2 [OF assms(1), of fs]
  have some: "fs (baselinesDir (analyzer ?p4)) = Some entries"
    using assms(2) by simp
  have "analyzeLayoutPatterns fs ?p4 =
        (Inr (), console_log (''OK-> Pattern analysis complete.'' @ newline)
        (add_issues (phase3_issues (map fst entries))
           (console_log (emoji_palette @ '' Analyzing layout patterns for 2025 best practices...'') ?p4)))"
    by (rule analyzeLayoutPatterns_Some [of fs ?p4, OF some])
  also have "\<dots> = (Inr (), p5)"
    by (simp add: console_log_def add_issues_def progress_def found_def p5_def)
  finally have 3: "analyzeLayoutPatterns fs ?p4 = (Inr (), p5)" .
  obtain ls where 4: "generateRecommendations p5 =
          (Inr (), p5\<lparr>stdout := stdout p5 @ ls @ summary (analyzer p5)\<rparr>)"
    using generateRecommendations_eq by blast
  have "analyze fs p = (Inr (issues (analyzer p5)),
                        p5\<lparr>stdout := stdout p5 @ ls @ summary (analyzer p5)\<rparr>)"
    by (simp only: analyze_def Let_def ph 3 4 prod.case sum.case) simp
  also have "\<dots> = (Inr found,
      p\<lparr>analyzer := (analyzer p)\<lparr>issues := found\<rparr>,
        stdout := stdout p @ progress fs (analyzer p)
                  @ ([''OK-> Pattern analysis complete.'' @ newline] @ ls)
                  @ summary ((analyzer p)\<lparr>issues := found\<rparr>)\<rparr>)"
    unfolding p5_def by simp
  finally show ?thesis by blast
qed

section \<open>A run on a fresh analyzer; the baseline directory is missing\<close>

lemma start_sel [simp]:
  "baselinesDir (analyzer (start ps)) = ''visual-tests/baselines''"
  "devices (analyzer (start ps)) = [''Mobile'', ''Mobile-Large'', ''Tablet'', ''Desktop'']"
  "pages (analyzer (start ps)) = ps"
  "issues (analyzer (start ps)) = []"
  "stdout (start ps) = []"
  "stderr (start ps) = []"
  by (simp_all add: start_def constructor_def)

lemma start_distinct: "distinct (devices (analyzer (start ps)))"
  by simp

lemma file_size_None: "fs dir = None \<Longrightarrow> file_size fs dir name = None"
  by (simp add: file_size_def)

lemma recorded_sizes_None: "fs dir = None \<Longrightarrow> recorded_sizes fs dir devs pg = []"
  by (induction devs) (simp_all add: recorded_sizes_def map_filter_simps file_size_None)

lemma page_issues_None:
  "fs dir = None \<Longrightarrow> page_issues fs dir devs pg = [missing_device_support pg devs]"
  by (simp add: page_issues_def recorded_sizes_None coverage_issue_def ratio_issue_def)

lemma phase1_issues_None:
  assumes "fs (baselinesDir this) = None"
  shows "phase1_issues fs this = map (\<lambda>pg. missing_device_support pg (devices this)) (pages this)"
proof -
  have eq: "map (page_issues fs (baselinesDir this) (devices this)) (pages this)
          = map (\<lambda>pg. [missing_device_support pg (devices this)]) (pages this)"
    using assms by (simp add: page_issues_None)
  show ?thesis unfolding phase1_issues_def eq by simp
qed

lemma existsSync_None: "fs dir = None \<Longrightarrow> \<not> existsSync fs (path_join dir name)"
  by (simp add: existsSync_file_size file_size_None)

lemma phase2_issues_None:
  assumes "fs (baselinesDir this) = None"
  shows "phase2_issues fs this =
     concat (map (\<lambda>d. map (\<lambda>pg. missing_baseline pg d (d @ ''-'' @ pg @ ''-baseline.png''))
                         (pages this)) (devices this))"
proof -
  have eq: "map (missing_baselines fs (baselinesDir this) (pages this)) (devices this)
          = map (\<lambda>d. map (\<lambda>pg. missing_baseline pg d (d @ ''-'' @ pg @ ''-baseline.png''))
                         (pages this)) (devices this)"
    using assms by (simp add: missing_baselines_none_exist existsSync_None)
  show ?thesis unfolding phase2_issues_def eq ..
qed

lemma length_concat_map_const:
  "(\<And>x. x \<in> set xs \<Longrightarrow> length (f x) = n) \<Longrightarrow> length (concat (map f xs)) = length xs * n"
  by (induction xs) simp_all

lemma main_None:
  assumes "fs ''visual-tests/baselines'' = None"
  shows "main ps fs =
     \<lparr>analyzer = (constructor ps)\<lparr>issues :=
          map (\<lambda>pg. missing_device_support pg [''Mobile'', ''Mobile-Large'', ''Tablet'', ''Desktop'']) ps
          @ concat (map (\<lambda>d. map (\<lambda>pg. missing_baseline pg d (d @ ''-'' @ pg @ ''-baseline.png'')) ps)
                     [''Mobile'', ''Mobile-Large'', ''Tablet'', ''Desktop''])\<rparr>,
      stdout =
        [''Starting Cross-Device Visual Analysis...'',
         ''2025 Mobile-First Responsive Design Standards Check'' @ newline,
         emoji_ruler @ '' Analyzing screenshot file sizes across devices...'',
         ''OK--> Size analysis complete. Found '' @ toString (length ps)
           @ '' potential issues.'' @ newline,
         emoji_clipboard @ '' Checking for missing baseline files...'',
         ''OK--> File check complete. '' @ toString (4 * length ps) @ '' missing files.'' @ newline,
         emoji_palette @ '' Analyzing layout patterns for 2025 best practices...''],
      stderr = [ENOENT scandir ''visual-tests/baselines'']\<rparr>"
proof -
  have none: "fs (baselinesDir (analyzer (start ps))) = None"
    using assms by simp
  have this_none: "fs (baselinesDir (constructor ps)) = None"
    using assms by (simp add: constructor_def)
  have a: "analyzer (start ps) = constructor ps" by (simp add: start_def)
  have l2: "length (phase2_issues fs (constructor ps)) = 4 * length ps"
    by (simp add: phase2_issues_None [of fs "constructor ps", OF this_none]) (simp add: constructor_def)
  have l1: "length (phase1_issues fs (constructor ps)) = length ps"
    by (simp add: phase1_issues_None [of fs "constructor ps", OF this_none]) (simp add: constructor_def)
  show ?thesis
    unfolding main_def analyze_None [of "start ps" fs, OF start_distinct none] a
    by (simp add: console_error_def progress_def l1 l2)
      (simp add: start_def phase1_issues_None [of fs "constructor ps", OF this_none] phase2_issues_None [of fs "constructor ps", OF this_none],
       simp add: constructor_def)
qed

lemma analyze_via_main_None:
  assumes "fs ''visual-tests/baselines'' = None"
  shows "analyze fs (start ps) =
           (Inl (ENOENT scandir ''visual-tests/baselines''),
            (main ps fs)\<lparr>stderr := []\<rparr>)"
proof -
  have none: "fs (baselinesDir (analyzer (start ps))) = None"
    using assms by simp
  show ?thesis
    unfolding main_def analyze_None [of "start ps" fs, OF start_distinct none]
    by (simp add: console_error_def)
qed

lemma analyzeSizes_no_throw: "fst (analyzeSizes fs q) = Inr ()"
  by (simp add: analyzeSizes_general)

lemma checkMissingFiles_no_throw: "fst (checkMissingFiles fs q) = Inr ()"
  by (simp add: checkMissingFiles_eq)

section \<open>A run that succeeds\<close>

lemma severity_phase1:
  "i \<in> set (phase1_issues fs this) \<Longrightarrow> severity i = HIGH \<or> severity i = MEDIUM"
  by (auto simp: phase1_issues_def page_issues_def coverage_issue_def ratio_issue_def
      missing_device_support_def layout_inconsistency_def split: if_splits)

lemma severity_phase2:
  "i \<in> set (phase2_issues fs this) \<Longrightarrow> severity i = HIGH"
  by (auto simp: phase2_issues_def missing_baselines_def missing_baseline_def split: if_splits)

lemma severity_phase3:
  "i \<in> set (phase3_issues files) \<Longrightarrow> severity i = HIGH \<or> severity i = MEDIUM"
  by (auto simp: phase3_issues_def mobile_nav_missing_def incomplete_homepage_testing_def
      split: if_splits)

lemma length_filter_two_severities:
  "(\<And>i. i \<in> set xs \<Longrightarrow> severity i = HIGH \<or> severity i = MEDIUM) \<Longrightarrow>
   length xs = length (filter (\<lambda>i. severity i = HIGH) xs)
               + length (filter (\<lambda>i. severity i = MEDIUM) xs)"
  by (induction xs) auto

lemma constructor_issues: "issues (constructor ps) = []"
  by (simp add: constructor_def)

lemma analyze_start_success:
  assumes "analyze fs (start ps) = (Inr found, p')"
  obtains entries ls where
    "fs ''visual-tests/baselines'' = Some entries"
    "found = phase1_issues fs (constructor ps) @ phase2_issues fs (constructor ps)
             @ phase3_issues (map fst entries)"
    "p' = (start ps)\<lparr>analyzer := (constructor ps)\<lparr>issues := found\<rparr>,
            stdout := progress fs (constructor ps) @ ls
                      @ summary ((constructor ps)\<lparr>issues := found\<rparr>)\<rparr>"
proof (cases "fs ''visual-tests/baselines''")
  case None
  then have "fs (baselinesDir (analyzer (start ps))) = None" by simp
  from analyze_None [of "start ps" fs, OF start_distinct this] assms show ?thesis by simp
next
  case (Some entries)
  then have dir: "fs (baselinesDir (analyzer (start ps))) = Some entries" by simp
  have a: "analyzer (start ps) = constructor ps" by (simp add: start_def)
  from analyze_Some [of "start ps" fs entries, OF start_distinct dir]
  obtain ls where "analyze fs (start ps) =
     (Inr (issues (analyzer (start ps)) @ phase1_issues fs (analyzer (start ps))
           @ phase2_issues fs (analyzer (start ps)) @ phase3_issues (map fst entries)),
      (start ps)\<lparr>analyzer := (analyzer (start ps))\<lparr>issues :=
           issues (analyzer (start ps)) @ phase1_issues fs (analyzer (start ps))
           @ phase2_issues fs (analyzer (start ps)) @ phase3_issues (map fst entries)\<rparr>,
        stdout := stdout (start ps) @ progress fs (analyzer (start ps)) @ ls
                  @ summary ((analyzer (start ps))\<lparr>issues :=
           issues (analyzer (start ps)) @ phase1_issues fs (analyzer (start ps))
           @ phase2_issues fs (analyzer (start ps)) @ phase3_issues (map fst entries)\<rparr>)\<rparr>)"
    by blast
  with assms have
    "found = phase1_issues fs (constructor ps) @ phase2_issues fs (constructor ps)
             @ phase3_issues (map fst entries)"
    "p' = (start ps)\<lparr>analyzer := (constructor ps)\<lparr>issues := found\<rparr>,
            stdout := progress fs (constructor ps) @ ls
                      @ summary ((constructor ps)\<lparr>issues := found\<rparr>)\<rparr>"
    by (auto simp: a constructor_issues)
  with Some that show ?thesis by blast
qed

lemma empty_directory_found:
  "phase1_issues [''visual-tests/baselines'' \<mapsto> []] (constructor reference_pages)
     = replicate 5 (missing_device_support ''addpagehere''
                      [''Mobile'', ''Mobile-Large'', ''Tablet'', ''Desktop''])"
  "phase2_issues [''visual-tests/baselines'' \<mapsto> []] (constructor reference_pages)
     = concat (map (\<lambda>d. replicate 5
                          (missing_baseline ''addpagehere'' d (d @ ''-addpagehere-baseline.png'')))
                    [''Mobile'', ''Mobile-Large'', ''Tablet'', ''Desktop''])"
  "phase3_issues (map fst ([] :: directory)) = [mobile_nav_missing, incomplete_homepage_testing]"
    apply (simp add: phase1_issues_def page_issues_def recorded_sizes_def file_size_def
      coverage_issue_def ratio_issue_def constructor_def reference_pages_def map_filter_simps
      eval_nat_numeral)
   apply (simp add: phase2_issues_def missing_baselines_def existsSync_file_size file_size_def
      constructor_def reference_pages_def eval_nat_numeral)
  apply (simp add: phase3_issues_def)
  done

lemma prefix_add_issues: "prefix (issues (analyzer p)) (issues (analyzer (add_issues new p)))"
  by simp

section \<open>The quotient of two byte sizes and the threshold 3\<close>

lemma round_half_even_bounds:
  "\<lfloor>x\<rfloor> \<le> round_half_even x" "round_half_even x \<le> \<lfloor>x\<rfloor> + 1"
  by (simp_all add: round_half_even_def Let_def)

lemma round_half_even_ge: "of_int N \<le> x \<Longrightarrow> N \<le> round_half_even x"
  using round_half_even_bounds(1) [of x] by (simp add: le_floor_iff [symmetric])

lemma round_half_even_le:
  assumes "x \<le> of_int N"
  shows "round_half_even x \<le> N"
proof (cases "\<lfloor>x\<rfloor> < N")
  case True
  with round_half_even_bounds(2) [of x] show ?thesis by simp
next
  case False
  have "\<lfloor>x\<rfloor> \<le> N" using assms by (simp add: floor_le_iff)
  with False have f: "\<lfloor>x\<rfloor> = N" by simp
  then have "of_int N \<le> x" by (metis of_int_floor_le)
  with assms have "x = of_int N" by simp
  then show ?thesis by (simp add: round_half_even_def)
qed

lemma round_half_even_above_half:
  assumes "of_int N + 1 / 2 < x"
  shows "N + 1 \<le> round_half_even x"
proof (cases "N + 1 \<le> \<lfloor>x\<rfloor>")
  case True
  with round_half_even_bounds(1) [of x] show ?thesis by simp
next
  case False
  have "N \<le> \<lfloor>x\<rfloor>" using assms by (simp add: le_floor_iff)
  with False have f: "\<lfloor>x\<rfloor> = N" by simp
  with assms have "1 / 2 < x - of_int \<lfloor>x\<rfloor>" by simp
  then show ?thesis using f by (simp add: round_half_even_def Let_def)
qed

lemma number_divide_finite:
  assumes "0 < a" "0 < b"
  shows "number_divide a b =
           Finite (of_int (round_half_even
                     (of_nat a / of_nat b / 2 powi (binary_exponent a b - 52)))
                   * 2 powi (binary_exponent a b - 52))"
  using assms by (simp add: number_divide_def Let_def)


lemma quotient_bounds:
  fixes a b m :: nat
  assumes "0 < b"
  shows "m * b \<le> a \<Longrightarrow> (of_nat m :: rat) \<le> of_nat a / of_nat b"
    and "a \<le> m * b \<Longrightarrow> (of_nat a :: rat) / of_nat b \<le> of_nat m"
proof -
  have pos: "(0 :: rat) < of_nat b" using assms by simp
  show "(of_nat m :: rat) \<le> of_nat a / of_nat b" if "m * b \<le> a"
  proof -
    from that have "(of_nat (m * b) :: rat) \<le> of_nat a" by (simp only: of_nat_le_iff)
    then show ?thesis using pos by (simp add: pos_le_divide_eq)
  qed
  show "(of_nat a :: rat) / of_nat b \<le> of_nat m" if "a \<le> m * b"
  proof -
    from that have "(of_nat a :: rat) \<le> of_nat (m * b)" by (simp only: of_nat_le_iff)
    then show ?thesis using pos by (simp add: pos_divide_le_eq)
  qed
qed

lemma ulp_scale:
  assumes "0 < k"
  shows "(2 :: rat) ^ 52 * 2 powi (int k - 1 - 52) = 2 ^ (k - 1)"
proof -
  have "(2 :: rat) ^ 52 * 2 powi (int k - 1 - 52) = 2 powi 52 * 2 powi (int k - 1 - 52)"
    by (simp only: power_int_numeral)
  also have "\<dots> = 2 powi (52 + (int k - 1 - 52))"
    by (rule power_int_add [symmetric]) simp
  also have "52 + (int k - 1 - 52) = int (k - 1)" using assms by simp
  also have "(2 :: rat) powi int (k - 1) = 2 ^ (k - 1)" by (rule power_int_of_nat)
  finally show ?thesis .
qed

lemma ratio_exceeds_3_iff:
  fixes a b :: nat
  assumes "0 < b" "b \<le> a" "a < 2 ^ 53"
  shows "greater_than (number_divide a b) 3 \<longleftrightarrow> 3 * b < a"
proof -
  define n where "n = a div b"
  define k where "k = floorlog 2 n"
  define ulp :: rat where "ulp = 2 powi (int k - 1 - 52)"
  define q :: rat where "q = of_nat a / of_nat b"
  define r where "r = round_half_even (q / ulp)"
  have a_pos: "0 < a" using assms by simp
  have n_pos: "0 < n" using assms by (simp add: n_def div_greater_zero_iff)
  have k_bounds: "2 ^ (k - 1) \<le> n" "n < 2 ^ k"
    using floorlog_bounds [of n 2] n_pos by (simp_all add: k_def)
  have "k \<noteq> 0" using n_pos by (simp add: k_def floorlog_eq_zero_iff)
  then have k_pos: "0 < k" by simp
  have ulp_pos: "0 < ulp" by (simp add: ulp_def)
  have scale: "(2 :: rat) ^ 52 * ulp = 2 ^ (k - 1)"
    unfolding ulp_def by (rule ulp_scale [OF k_pos])
  have e: "binary_exponent a b = int k - 1"
    using assms by (simp add: binary_exponent_def k_def n_def)
  have val: "number_divide a b = Finite (of_int r * ulp)"
    using number_divide_finite [OF a_pos assms(1)] by (simp add: e r_def q_def ulp_def)
  have gt: "greater_than (number_divide a b) 3 \<longleftrightarrow> 3 < of_int r * ulp"
    by (simp add: val)
  show ?thesis
  proof (cases "3 * b < a")
    case True
    have "3 * b \<le> a" using True by simp
    then have n3: "3 \<le> n" using assms(1) by (simp add: n_def less_eq_div_iff_mult_less_eq)
    have "2 \<le> k"
    proof (rule ccontr)
      assume "\<not> 2 \<le> k"
      then have "k = 1" using k_pos by simp
      with k_bounds(2) n3 show False by simp
    qed
    then consider "k = 2" | "3 \<le> k" by linarith
    then have "3 < of_int r * ulp"
    proof cases
      case 1
      have u: "ulp = 1 / 2 ^ 51" by (simp add: ulp_def 1 power_int_minus_divide)
      have b_small: "b < 2 ^ 52" using True assms(3) by simp
      have "(3 * 2 ^ 52 + 1) * b < a * 2 ^ 52"
      proof -
        have "(3 * 2 ^ 52 + 1) * b = 3 * b * 2 ^ 52 + b" by (simp add: algebra_simps)
        also have "\<dots> < 3 * b * 2 ^ 52 + 2 ^ 52" using b_small by simp
        also have "\<dots> = (3 * b + 1) * 2 ^ 52" by (simp add: algebra_simps)
        also have "\<dots> \<le> a * 2 ^ 52" using True by simp
        finally show ?thesis .
      qed
      then have "(of_nat ((3 * 2 ^ 52 + 1) * b) :: rat) < of_nat (a * 2 ^ 52)"
        by (simp only: of_nat_less_iff)
      then have "(3 * 2 ^ 52 + 1) * (of_nat b :: rat) < of_nat a * 2 ^ 52" by simp
      then have "(3 * 2 ^ 52 + 1 :: rat) < q * 2 ^ 52"
        using assms(1) by (simp add: q_def pos_less_divide_eq)
      then have "of_int (3 * 2 ^ 51) + 1 / 2 < q / ulp" by (simp add: u)
      then have "3 * 2 ^ 51 + 1 \<le> r"
        unfolding r_def by (rule round_half_even_above_half)
      then have "(of_int (3 * 2 ^ 51 + 1) :: rat) \<le> of_int r" by (simp only: of_int_le_iff)
      then show ?thesis by (simp add: u)
    next
      case 2
      have "2 ^ (k - 1) * b \<le> a"
        using k_bounds(1) assms(1) by (simp add: n_def less_eq_div_iff_mult_less_eq)
      then have "(of_nat (2 ^ (k - 1)) :: rat) \<le> q"
        unfolding q_def by (rule quotient_bounds(1) [OF assms(1)])
      then have "(2 :: rat) ^ (k - 1) \<le> q" by simp
      then have "(2 :: rat) ^ 52 * ulp \<le> q" by (simp only: scale)
      then have "(of_int (2 ^ 52) :: rat) \<le> q / ulp"
        using ulp_pos by (simp add: pos_le_divide_eq)
      then have "2 ^ 52 \<le> r" unfolding r_def by (rule round_half_even_ge)
      then have "(of_int (2 ^ 52) :: rat) \<le> of_int r" by (simp only: of_int_le_iff)
      then have "(2 :: rat) ^ 52 * ulp \<le> of_int r * ulp"
        using ulp_pos by simp
      then have "(2 :: rat) ^ (k - 1) \<le> of_int r * ulp" by (simp only: scale)
      moreover have "(2 :: rat) ^ 2 \<le> 2 ^ (k - 1)"
        using 2 by (intro power_increasing) simp_all
      ultimately show ?thesis by simp
    qed
    with True gt show ?thesis by simp
  next
    case False
    then have le: "a \<le> 3 * b" by simp
    have "n \<le> 3"
    proof -
      have "a div b \<le> (3 * b) div b" using le by (rule div_le_mono)
      then show ?thesis using assms(1) by (simp add: n_def)
    qed
    then have "n < 2 ^ 2" by simp
    then have "k \<le> 2" unfolding k_def by (intro floorlog_leI) simp_all
    with k_pos consider "k = 1" | "k = 2" by linarith
    then have "of_int r * ulp \<le> 3"
    proof cases
      case 1
      have u: "ulp = 1 / 2 ^ 52" by (simp add: ulp_def 1 power_int_minus_divide)
      have "n < 2" using k_bounds(2) 1 by simp
      then have "a < 2 * b" using assms(1) by (simp add: n_def div_less_iff_less_mult)
      then have "a \<le> 2 * b" by simp
      then have "q \<le> of_nat 2" unfolding q_def by (rule quotient_bounds(2) [OF assms(1)])
      then have "q / ulp \<le> of_int (2 ^ 53)" by (simp add: u)
      then have "r \<le> 2 ^ 53" unfolding r_def by (rule round_half_even_le)
      then have "(of_int r :: rat) \<le> of_int (2 ^ 53)" by (simp only: of_int_le_iff)
      then show ?thesis by (simp add: u)
    next
      case 2
      have u: "ulp = 1 / 2 ^ 51" by (simp add: ulp_def 2 power_int_minus_divide)
      have "q \<le> of_nat 3" using le unfolding q_def by (rule quotient_bounds(2) [OF assms(1)])
      then have "q / ulp \<le> of_int (3 * 2 ^ 51)" by (simp add: u)
      then have "r \<le> 3 * 2 ^ 51" unfolding r_def by (rule round_half_even_le)
      then have "(of_int r :: rat) \<le> of_int (3 * 2 ^ 51)" by (simp only: of_int_le_iff)
      then show ?thesis by (simp add: u)
    qed
    with False gt show ?thesis by simp
  qed
qed

lemma ratio_exceeds_3_iff':
  fixes a b :: nat
  assumes "b \<le> a" "a < 2 ^ 53"
  shows "greater_than (number_divide a b) 3 \<longleftrightarrow> 3 * b < a"
proof (cases "b = 0")
  case True
  then show ?thesis by (simp add: number_divide_def)
next
  case False
  then have "0 < b" by simp
  from ratio_exceeds_3_iff [OF this assms] show ?thesis .
qed

lemma size_ratio_exceeds_3_iff:
  assumes "S \<noteq> []" "\<forall>n \<in> set (map snd S). n < 2 ^ 53"
  shows "greater_than (size_ratio S) 3 \<longleftrightarrow> 3 * Min (set (map snd S)) < Max (set (map snd S))"
proof -
  have ne: "set (map snd S) \<noteq> {}" using assms(1) by simp
  have fin: "finite (set (map snd S))" by simp
  have mx: "Max (set (map snd S)) \<in> set (map snd S)"
    using fin ne by (rule Max_in)
  have "Min (set (map snd S)) \<le> Max (set (map snd S))"
    using fin mx by (rule Min_le)
  moreover from mx have "Max (set (map snd S)) < 2 ^ 53" using assms(2) by blast
  ultimately show ?thesis
    unfolding size_ratio_def Math_max_def Math_min_def by (rule ratio_exceeds_3_iff')
qed

lemma layout_inconsistency_fields:
  "layout_inconsistency pg r S =
     \<lparr>type = LAYOUT_INCONSISTENCY, page = Some pg, severity = MEDIUM,
      description = ''Extreme content differences across devices ('' @ toFixed r 1
                    @ ''x variation)'',
      issue.devices = None, device = None, sizes = Some S, filename = None\<rparr>"
  by (simp add: layout_inconsistency_def)

lemma filter_layout_page_issues:
  "filter (\<lambda>i. type i = LAYOUT_INCONSISTENCY) (page_issues fs dir devs pg) =
     ratio_issue pg (recorded_sizes fs dir devs pg)"
  by (simp add: page_issues_def coverage_issue_def ratio_issue_def missing_device_support_def
      layout_inconsistency_def)

lemma filter_layout_phase1:
  "filter (\<lambda>i. type i = LAYOUT_INCONSISTENCY) (phase1_issues fs this) =
     concat (map (\<lambda>pg. ratio_issue pg (recorded_sizes fs (baselinesDir this) (devices this) pg))
               (pages this))"
  unfolding phase1_issues_def
  by (induction "pages this" arbitrary: this) (simp_all add: filter_concat comp_def filter_layout_page_issues)

lemma issues_analyzeSizes_start:
  "issues (analyzer (snd (analyzeSizes fs (start ps)))) = phase1_issues fs (constructor ps)"
  by (simp add: analyzeSizes_eq [OF start_distinct]) (simp add: start_def)

lemma quotient_301_100:
  "greater_than (number_divide 301 100) 3"
  "toFixed (number_divide 301 100) 1 = ''3.0''"
  "\<not> greater_than (number_divide 300 100) 3"
  "toFixed (number_divide 301 100) (Suc 0) = ''3.0''"
  by code_simp+


lemma recorded_two_devices:
  "recorded_sizes
     [''visual-tests/baselines'' \<mapsto>
        [(''Mobile-home-baseline.png'', m), (''Desktop-home-baseline.png'', n)]]
     ''visual-tests/baselines'' [''Mobile'', ''Mobile-Large'', ''Tablet'', ''Desktop''] ''home''
   = [(''Mobile'', m), (''Desktop'', n)]"
  by (simp add: recorded_sizes_def file_size_def map_filter_simps)

lemma size_ratio_two:
  "m \<le> n \<Longrightarrow> size_ratio [(d, m), (d', n)] = number_divide n m"
  by (simp add: size_ratio_def Math_max_def Math_min_def max_def min_def)

section \<open>The coverage check of Phase 1\<close>

lemma recorded_sizes_Cons:
  "recorded_sizes fs dir (d # devs) pg =
     (case file_size fs dir (d @ ''-'' @ pg @ ''-baseline.png'') of
        None \<Rightarrow> recorded_sizes fs dir devs pg
      | Some n \<Rightarrow> (d, n) # recorded_sizes fs dir devs pg)"
  by (simp add: recorded_sizes_def map_filter_simps split: option.splits)

lemma recorded_sizes_Nil: "recorded_sizes fs dir [] pg = []"
  by (simp add: recorded_sizes_def map_filter_simps)

lemma map_of_recorded_sizes:
  "map_of (recorded_sizes fs dir devs pg) d =
     (if d \<in> set devs then file_size fs dir (d @ ''-'' @ pg @ ''-baseline.png'') else None)"
  by (induction devs) (auto simp: recorded_sizes_Cons recorded_sizes_Nil split: option.splits)

lemma filter_coverage_page_issues:
  "filter (\<lambda>i. type i = MISSING_DEVICE_SUPPORT) (page_issues fs dir devs pg) =
     coverage_issue devs pg (recorded_sizes fs dir devs pg)"
  by (simp add: page_issues_def coverage_issue_def ratio_issue_def missing_device_support_def
      layout_inconsistency_def)

lemma filter_coverage_phase1:
  "filter (\<lambda>i. type i = MISSING_DEVICE_SUPPORT) (phase1_issues fs this) =
     concat (map (\<lambda>pg. coverage_issue (devices this) pg
                          (recorded_sizes fs (baselinesDir this) (devices this) pg))
               (pages this))"
  unfolding phase1_issues_def
  by (induction "pages this" arbitrary: this)
    (simp_all add: filter_concat comp_def filter_coverage_page_issues)

section \<open>Page entries with the same name\<close>

lemma map_fst_fold_update:
  "distinct (map fst al) \<Longrightarrow>
   distinct (map fst (fold (\<lambda>k. AList.update k (f k)) ks al))
   \<and> set (map fst (fold (\<lambda>k. AList.update k (f k)) ks al)) = set (map fst al) \<union> set ks"
proof (induction ks arbitrary: al)
  case Nil
  then show ?case by simp
next
  case (Cons k ks)
  have "distinct (map fst (AList.update k (f k) al))"
    using Cons.prems by (rule distinct_update)
  from Cons.IH [OF this] show ?case
    by (auto simp: update_keys split: if_splits)
qed

lemma sizes_object_collapses:
  "\<exists>sizes_obj. forEach ps (analyzeSizes_collect fs this) [] = (Inr (), sizes_obj)
     \<and> distinct (map fst sizes_obj) \<and> set (map fst sizes_obj) = set ps
     \<and> (\<forall>pg \<in> set ps. distinct (devices this) \<longrightarrow>
           map_of sizes_obj pg = Some (recorded_sizes fs (baselinesDir this) (devices this) pg))"
proof -
  let ?f = "\<lambda>pg. fold (record_size fs (baselinesDir this) pg) (devices this) []"
  let ?S = "fold (\<lambda>pg. AList.update pg (?f pg)) ps []"
  have "forEach ps (analyzeSizes_collect fs this) [] = (Inr (), ?S)"
    by (rule forEach_analyzeSizes_collect)
  moreover have "distinct (map fst ?S) \<and> set (map fst ?S) = set ps"
    using map_fst_fold_update [of "[]" ?f ps] by simp
  moreover have "\<forall>pg \<in> set ps. distinct (devices this) \<longrightarrow>
           map_of ?S pg = Some (recorded_sizes fs (baselinesDir this) (devices this) pg)"
    by (simp add: map_of_fold_update fold_record_size_recorded)
  ultimately show ?thesis by blast
qed

lemma page_of_page_issues:
  "i \<in> set (page_issues fs dir devs pg) \<Longrightarrow> page i = Some pg"
  by (auto simp: page_issues_def coverage_issue_def ratio_issue_def missing_device_support_def
      layout_inconsistency_def split: if_splits)

lemma filter_page_page_issues:
  "filter (\<lambda>i. page i = Some pg) (page_issues fs dir devs pg') =
     (if pg' = pg then page_issues fs dir devs pg' else [])"
proof (cases "pg' = pg")
  case True
  then show ?thesis by (simp add: page_of_page_issues)
next
  case False
  have "\<forall>i \<in> set (page_issues fs dir devs pg'). \<not> page i = Some pg"
    using False page_of_page_issues [of _ fs dir devs pg'] by auto
  with False show ?thesis by (simp add: filter_False)
qed

lemma filter_page_concat:
  "filter (\<lambda>i. page i = Some pg) (concat (map (page_issues fs dir devs) ps)) =
     concat (replicate (count_list ps pg) (page_issues fs dir devs pg))"
  by (induction ps) (simp_all add: filter_page_page_issues)

lemma page_issues_no_files:
  assumes "\<forall>d \<in> set devs. \<not> existsSync fs (path_join dir (d @ ''-'' @ pg @ ''-baseline.png''))"
  shows "recorded_sizes fs dir devs pg = []"
    and "page_issues fs dir devs pg = [missing_device_support pg devs]"
proof -
  have none: "\<forall>d \<in> set devs. file_size fs dir (d @ ''-'' @ pg @ ''-baseline.png'') = None"
    using assms by (simp add: existsSync_file_size)
  then show rec: "recorded_sizes fs dir devs pg = []"
    by (induction devs) (simp_all add: recorded_sizes_Cons recorded_sizes_Nil)
  have "filter (\<lambda>d. falsy (map_of [] d)) devs = devs" by simp
  then show "page_issues fs dir devs pg = [missing_device_support pg devs]"
    by (simp add: page_issues_def rec coverage_issue_def ratio_issue_def)
qed


section \<open>The claims of the specification\<close>

text \<open>
  Claim C1. Let the page names be single path components and the sizes of the files of
  the baseline directory be below \<open>2^53\<close>. The \<open>LAYOUT_INCONSISTENCY\<close> issues that
  \<^verbatim>\<open>analyzeSizes\<close> appends are, in the order of the page list, one for each page entry that
  has more than one recorded size and whose quotient of the largest by the smallest size,
  as JavaScript computes it, is greater than 3. For sizes below \<open>2^53\<close> this is the case exactly when the largest size exceeds
  three times the smallest. The issue has severity \<open>MEDIUM\<close>, its description holds the
  quotient printed by \<^verbatim>\<open>toFixed(1)\<close>, and it carries the size object of the page. Sizes of
  100 and 300 bytes give no issue; sizes of 100 and 301 bytes give the issue, with \<^verbatim>\<open>3.0\<close> in
  the description.
\<close>

theorem analyzeSizes_layout_inconsistency:
  "(list_all single_component ps \<and> exact_sizes fs ''visual-tests/baselines'' \<longrightarrow>
    filter (\<lambda>i. type i = LAYOUT_INCONSISTENCY)
     (issues (analyzer (snd (analyzeSizes fs (start ps))))) =
   [layout_inconsistency pg
      (size_ratio (recorded_sizes fs ''visual-tests/baselines''
                     [''Mobile'', ''Mobile-Large'', ''Tablet'', ''Desktop''] pg))
      (recorded_sizes fs ''visual-tests/baselines''
         [''Mobile'', ''Mobile-Large'', ''Tablet'', ''Desktop''] pg).
      pg \<leftarrow> ps,
      1 < length (recorded_sizes fs ''visual-tests/baselines''
                    [''Mobile'', ''Mobile-Large'', ''Tablet'', ''Desktop''] pg)
      \<and> greater_than
            (size_ratio (recorded_sizes fs ''visual-tests/baselines''
                           [''Mobile'', ''Mobile-Large'', ''Tablet'', ''Desktop''] pg)) 3])
   \<and> size_ratio S = number_divide (Math_max (map snd S)) (Math_min (map snd S))
   \<and> (S \<noteq> [] \<and> (\<forall>n \<in> set (map snd S). n < 2 ^ 53) \<longrightarrow>
        (greater_than (size_ratio S) 3
           \<longleftrightarrow> 3 * Min (set (map snd S)) < Max (set (map snd S))))
   \<and> layout_inconsistency pg' r S =
       \<lparr>type = LAYOUT_INCONSISTENCY, page = Some pg', severity = MEDIUM,
        description = ''Extreme content differences across devices ('' @ toFixed r 1
                      @ ''x variation)'',
        issue.devices = None, device = None, sizes = Some S, filename = None\<rparr>
   \<and> filter (\<lambda>i. type i = LAYOUT_INCONSISTENCY)
       (issues (analyzer (snd (analyzeSizes
          [''visual-tests/baselines'' \<mapsto>
             [(''Mobile-home-baseline.png'', 100), (''Desktop-home-baseline.png'', 300)]]
          (start [''home''])))))
       = []
   \<and> filter (\<lambda>i. type i = LAYOUT_INCONSISTENCY)
       (issues (analyzer (snd (analyzeSizes
          [''visual-tests/baselines'' \<mapsto>
             [(''Mobile-home-baseline.png'', 100), (''Desktop-home-baseline.png'', 301)]]
          (start [''home''])))))
       = [\<lparr>type = LAYOUT_INCONSISTENCY, page = Some ''home'', severity = MEDIUM,
           description = ''Extreme content differences across devices (3.0x variation)'',
           issue.devices = None, device = None,
           sizes = Some [(''Mobile'', 100), (''Desktop'', 301)], filename = None\<rparr>]"
proof (intro conjI impI)
  have gen: "filter (\<lambda>i. type i = LAYOUT_INCONSISTENCY)
       (issues (analyzer (snd (analyzeSizes fs' (start ps')))))
     = concat (map (\<lambda>pg. ratio_issue pg (recorded_sizes fs' ''visual-tests/baselines''
                              [''Mobile'', ''Mobile-Large'', ''Tablet'', ''Desktop''] pg)) ps')"
    for fs' ps'
    by (simp add: issues_analyzeSizes_start filter_layout_phase1) (simp add: constructor_def)
  show "filter (\<lambda>i. type i = LAYOUT_INCONSISTENCY)
     (issues (analyzer (snd (analyzeSizes fs (start ps))))) =
   [layout_inconsistency pg
      (size_ratio (recorded_sizes fs ''visual-tests/baselines''
                     [''Mobile'', ''Mobile-Large'', ''Tablet'', ''Desktop''] pg))
      (recorded_sizes fs ''visual-tests/baselines''
         [''Mobile'', ''Mobile-Large'', ''Tablet'', ''Desktop''] pg).
      pg \<leftarrow> ps,
      1 < length (recorded_sizes fs ''visual-tests/baselines''
                    [''Mobile'', ''Mobile-Large'', ''Tablet'', ''Desktop''] pg)
      \<and> greater_than
            (size_ratio (recorded_sizes fs ''visual-tests/baselines''
                           [''Mobile'', ''Mobile-Large'', ''Tablet'', ''Desktop''] pg)) 3]"
    unfolding gen ratio_issue_def [abs_def] ..
  show "size_ratio S = number_divide (Math_max (map snd S)) (Math_min (map snd S))"
    by (rule size_ratio_def)
  show "greater_than (size_ratio S) 3 \<longleftrightarrow> 3 * Min (set (map snd S)) < Max (set (map snd S))"
    if "S \<noteq> [] \<and> (\<forall>n \<in> set (map snd S). n < 2 ^ 53)"
    using that by (intro size_ratio_exceeds_3_iff) simp_all
  show "layout_inconsistency pg' r S =
       \<lparr>type = LAYOUT_INCONSISTENCY, page = Some pg', severity = MEDIUM,
        description = ''Extreme content differences across devices ('' @ toFixed r 1
                      @ ''x variation)'',
        issue.devices = None, device = None, sizes = Some S, filename = None\<rparr>"
    by (rule layout_inconsistency_fields)
  show "filter (\<lambda>i. type i = LAYOUT_INCONSISTENCY)
       (issues (analyzer (snd (analyzeSizes
          [''visual-tests/baselines'' \<mapsto>
             [(''Mobile-home-baseline.png'', 100), (''Desktop-home-baseline.png'', 300)]]
          (start [''home''])))))
       = []"
    unfolding gen
    by (simp add: recorded_two_devices ratio_issue_def size_ratio_two quotient_301_100)
  show "filter (\<lambda>i. type i = LAYOUT_INCONSISTENCY)
       (issues (analyzer (snd (analyzeSizes
          [''visual-tests/baselines'' \<mapsto>
             [(''Mobile-home-baseline.png'', 100), (''Desktop-home-baseline.png'', 301)]]
          (start [''home''])))))
       = [\<lparr>type = LAYOUT_INCONSISTENCY, page = Some ''home'', severity = MEDIUM,
           description = ''Extreme content differences across devices (3.0x variation)'',
           issue.devices = None, device = None,
           sizes = Some [(''Mobile'', 100), (''Desktop'', 301)], filename = None\<rparr>]"
    unfolding gen
    by (simp add: recorded_two_devices ratio_issue_def size_ratio_two quotient_301_100
        layout_inconsistency_def)
qed

theorem analyzeSizes_layout_inconsistency_witness:
  "list_all single_component [''home'']
   \<and> exact_sizes
        [''visual-tests/baselines'' \<mapsto>
           [(''Mobile-home-baseline.png'', 100), (''Desktop-home-baseline.png'', 301)]]
        ''visual-tests/baselines''
   \<and> filter (\<lambda>i. type i = LAYOUT_INCONSISTENCY)
       (issues (analyzer (snd (analyzeSizes
          [''visual-tests/baselines'' \<mapsto>
             [(''Mobile-home-baseline.png'', 100), (''Desktop-home-baseline.png'', 301)]]
          (start [''home''])))))
       = [layout_inconsistency ''home'' (number_divide 301 100)
            [(''Mobile'', 100), (''Desktop'', 301)]]
   \<and> [(''Mobile'', 100), (''Desktop'', 301 :: nat)] \<noteq> []
   \<and> list_all (\<lambda>n. n < 2 ^ 53) (map snd [(''Mobile'', 100), (''Desktop'', 301 :: nat)])
   \<and> greater_than (size_ratio [(''Mobile'', 100), (''Desktop'', 301)]) 3
   \<and> \<not> greater_than (size_ratio [(''Mobile'', 100), (''Desktop'', 300)]) 3"
proof -
  let ?S = "[(''Mobile'', 100), (''Desktop'', 301 :: nat)]"
  let ?T = "[(''Mobile'', 100), (''Desktop'', 300 :: nat)]"
  let ?fs = "[''visual-tests/baselines'' \<mapsto>
               [(''Mobile-home-baseline.png'', 100 :: nat), (''Desktop-home-baseline.png'', 301)]]"
  have s: "?S \<noteq> [] \<and> (\<forall>n \<in> set (map snd ?S). n < 2 ^ 53)" by simp
  have t: "?T \<noteq> [] \<and> (\<forall>n \<in> set (map snd ?T). n < 2 ^ 53)" by simp
  from analyzeSizes_layout_inconsistency [of "[]" Map.empty ?S,
      THEN conjunct2, THEN conjunct2, THEN conjunct1, THEN mp, OF s]
  have 1: "greater_than (size_ratio ?S) 3" by simp
  from analyzeSizes_layout_inconsistency [of "[]" Map.empty ?T,
      THEN conjunct2, THEN conjunct2, THEN conjunct1, THEN mp, OF t]
  have 2: "\<not> greater_than (size_ratio ?T) 3" by simp
  have names: "list_all single_component [''home'']"
    by (simp add: single_component_def)
  have sizes: "exact_sizes ?fs ''visual-tests/baselines''"
    by (simp add: exact_sizes_def)
  from names sizes have h: "list_all single_component [''home'']
      \<and> exact_sizes ?fs ''visual-tests/baselines''" by (rule conjI)
  note inst = analyzeSizes_layout_inconsistency [of "[''home'']" ?fs,
      THEN conjunct1, THEN mp, OF h]
  have 3: "filter (\<lambda>i. type i = LAYOUT_INCONSISTENCY)
       (issues (analyzer (snd (analyzeSizes ?fs (start [''home''])))))
       = [layout_inconsistency ''home'' (number_divide 301 100) ?S]"
    unfolding inst using 1 by (simp add: recorded_two_devices size_ratio_two)
  from names sizes 1 2 3 show ?thesis by simp
qed
text \<open>
  Claim C2. The \<open>MISSING_DEVICE_SUPPORT\<close> issues that \<^verbatim>\<open>analyzeSizes\<close> appends are one for
  each page entry with fewer than four recorded sizes. Their \<^verbatim>\<open>devices\<close> field lists the
  devices for which \<^verbatim>\<open>!pageSizes[d]\<close> holds: those without a recorded size and also those
  whose recorded size is zero. So with a baseline file of zero bytes for \<^verbatim>\<open>Mobile\<close> and no
  other file, the size of \<^verbatim>\<open>Mobile\<close> is recorded, and yet \<^verbatim>\<open>Mobile\<close> is listed among the
  devices of the issue: the code departs from the claim here.
\<close>

theorem zero_byte_baseline_listed_as_missing:
  "filter (\<lambda>i. type i = MISSING_DEVICE_SUPPORT)
     (issues (analyzer (snd (analyzeSizes fs (start ps))))) =
   [missing_device_support pg
      [d \<leftarrow> [''Mobile'', ''Mobile-Large'', ''Tablet'', ''Desktop''].
         falsy (file_size fs ''visual-tests/baselines'' (d @ ''-'' @ pg @ ''-baseline.png''))].
      pg \<leftarrow> ps,
      length (recorded_sizes fs ''visual-tests/baselines''
                [''Mobile'', ''Mobile-Large'', ''Tablet'', ''Desktop''] pg) < 4]
   \<and> existsSync [''visual-tests/baselines'' \<mapsto> [(''Mobile-addpagehere-baseline.png'', 0)]]
         (path_join ''visual-tests/baselines'' ''Mobile-addpagehere-baseline.png'')
   \<and> recorded_sizes [''visual-tests/baselines'' \<mapsto> [(''Mobile-addpagehere-baseline.png'', 0)]]
         ''visual-tests/baselines'' [''Mobile'', ''Mobile-Large'', ''Tablet'', ''Desktop'']
         ''addpagehere'' = [(''Mobile'', 0)]
   \<and> issues (analyzer (snd (analyzeSizes
         [''visual-tests/baselines'' \<mapsto> [(''Mobile-addpagehere-baseline.png'', 0)]]
         (start reference_pages)))) =
       replicate 5
         \<lparr>type = MISSING_DEVICE_SUPPORT, page = Some ''addpagehere'', severity = HIGH,
          description = ''addpagehere page missing on some devices'',
          issue.devices = Some [''Mobile'', ''Mobile-Large'', ''Tablet'', ''Desktop''],
          device = None, sizes = None, filename = None\<rparr>"
proof (intro conjI)
  have filt: "filter (\<lambda>d. falsy (map_of (recorded_sizes fs ''visual-tests/baselines''
                [''Mobile'', ''Mobile-Large'', ''Tablet'', ''Desktop''] pg) d))
               [''Mobile'', ''Mobile-Large'', ''Tablet'', ''Desktop'']
      = [d \<leftarrow> [''Mobile'', ''Mobile-Large'', ''Tablet'', ''Desktop''].
         falsy (file_size fs ''visual-tests/baselines'' (d @ ''-'' @ pg @ ''-baseline.png''))]"
    for pg
    by (rule filter_cong) (simp_all add: map_of_recorded_sizes)
  show "filter (\<lambda>i. type i = MISSING_DEVICE_SUPPORT)
     (issues (analyzer (snd (analyzeSizes fs (start ps))))) =
   [missing_device_support pg
      [d \<leftarrow> [''Mobile'', ''Mobile-Large'', ''Tablet'', ''Desktop''].
         falsy (file_size fs ''visual-tests/baselines'' (d @ ''-'' @ pg @ ''-baseline.png''))].
      pg \<leftarrow> ps,
      length (recorded_sizes fs ''visual-tests/baselines''
                [''Mobile'', ''Mobile-Large'', ''Tablet'', ''Desktop''] pg) < 4]"
    unfolding issues_analyzeSizes_start filter_coverage_phase1 coverage_issue_def [abs_def]
    by (simp only: constructor_def VisualAnalyzer.simps filt)
  let ?fs = "[''visual-tests/baselines'' \<mapsto> [(''Mobile-addpagehere-baseline.png'', 0 :: nat)]]"
  show "existsSync ?fs (path_join ''visual-tests/baselines'' ''Mobile-addpagehere-baseline.png'')"
    by (simp add: existsSync_def path_join_def)
  show rec: "recorded_sizes ?fs ''visual-tests/baselines''
         [''Mobile'', ''Mobile-Large'', ''Tablet'', ''Desktop''] ''addpagehere'' = [(''Mobile'', 0)]"
    by (simp add: recorded_sizes_def file_size_def map_filter_simps)
  have "phase1_issues ?fs (constructor reference_pages) =
       replicate 5
         \<lparr>type = MISSING_DEVICE_SUPPORT, page = Some ''addpagehere'', severity = HIGH,
          description = ''addpagehere page missing on some devices'',
          issue.devices = Some [''Mobile'', ''Mobile-Large'', ''Tablet'', ''Desktop''],
          device = None, sizes = None, filename = None\<rparr>"
    unfolding phase1_issues_def
    by (simp add: constructor_def reference_pages_def page_issues_def rec coverage_issue_def
        ratio_issue_def missing_device_support_def eval_nat_numeral)
  then show "issues (analyzer (snd (analyzeSizes ?fs (start reference_pages)))) =
       replicate 5
         \<lparr>type = MISSING_DEVICE_SUPPORT, page = Some ''addpagehere'', severity = HIGH,
          description = ''addpagehere page missing on some devices'',
          issue.devices = Some [''Mobile'', ''Mobile-Large'', ''Tablet'', ''Desktop''],
          device = None, sizes = None, filename = None\<rparr>"
    by (simp only: issues_analyzeSizes_start)
qed

text \<open>
  Claim C3. \<^verbatim>\<open>checkMissingFiles\<close> does not throw. It visits the devices in order and,
  for each device, the pages in order, and appends one \<open>MISSING_BASELINE\<close> issue of
  severity \<open>HIGH\<close> for every combination whose file \<^verbatim>\<open>{device}-{page}-baseline.png\<close> does
  not exist; the issue carries the page, the device, the description
  \<^verbatim>\<open>Missing baseline for {device} {page}\<close> and the expected file name. With the reference
  configuration and no file present, these are 20 issues: five for each of the four
  devices, in the order of the devices.
\<close>

theorem checkMissingFiles_missing_baselines:
  "fst (checkMissingFiles fs p) = Inr ()
   \<and> issues (analyzer (snd (checkMissingFiles fs p))) =
       issues (analyzer p) @
       [missing_baseline pg d (d @ ''-'' @ pg @ ''-baseline.png'').
          d \<leftarrow> devices (analyzer p), pg \<leftarrow> pages (analyzer p),
          \<not> existsSync fs (path_join (baselinesDir (analyzer p))
                             (d @ ''-'' @ pg @ ''-baseline.png''))]
   \<and> missing_baseline pg' d' f' =
       \<lparr>type = MISSING_BASELINE, page = Some pg', severity = HIGH,
        description = ''Missing baseline for '' @ d' @ '' '' @ pg',
        issue.devices = None, device = Some d', sizes = None, filename = Some f'\<rparr>
   \<and> ((\<forall>f. \<not> existsSync fs (path_join ''visual-tests/baselines'' f)) \<longrightarrow>
        length (issues (analyzer (snd (checkMissingFiles fs (start reference_pages))))) = 20
        \<and> issues (analyzer (snd (checkMissingFiles fs (start reference_pages)))) =
            concat (map (\<lambda>d. replicate 5
                          (missing_baseline ''addpagehere'' d (d @ ''-addpagehere-baseline.png'')))
                   [''Mobile'', ''Mobile-Large'', ''Tablet'', ''Desktop'']))"
proof (intro conjI impI)
  show "fst (checkMissingFiles fs p) = Inr ()"
    by (simp add: checkMissingFiles_eq)
  show "issues (analyzer (snd (checkMissingFiles fs p))) =
       issues (analyzer p) @
       [missing_baseline pg d (d @ ''-'' @ pg @ ''-baseline.png'').
          d \<leftarrow> devices (analyzer p), pg \<leftarrow> pages (analyzer p),
          \<not> existsSync fs (path_join (baselinesDir (analyzer p))
                             (d @ ''-'' @ pg @ ''-baseline.png''))]"
    by (simp add: checkMissingFiles_eq phase2_issues_comprehension)
  show "missing_baseline pg' d' f' =
       \<lparr>type = MISSING_BASELINE, page = Some pg', severity = HIGH,
        description = ''Missing baseline for '' @ d' @ '' '' @ pg',
        issue.devices = None, device = Some d', sizes = None, filename = Some f'\<rparr>"
    by (rule missing_baseline_fields)
next
  assume none: "\<forall>f. \<not> existsSync fs (path_join ''visual-tests/baselines'' f)"
  have eq: "phase2_issues fs (constructor reference_pages) =
        concat (map (\<lambda>d. replicate 5
                          (missing_baseline ''addpagehere'' d (d @ ''-addpagehere-baseline.png'')))
                   [''Mobile'', ''Mobile-Large'', ''Tablet'', ''Desktop''])"
    using none
    by (simp add: phase2_issues_def constructor_def reference_pages_def
        missing_baselines_none_exist eval_nat_numeral)
  show "issues (analyzer (snd (checkMissingFiles fs (start reference_pages)))) =
            concat (map (\<lambda>d. replicate 5
                          (missing_baseline ''addpagehere'' d (d @ ''-addpagehere-baseline.png'')))
                   [''Mobile'', ''Mobile-Large'', ''Tablet'', ''Desktop''])"
    unfolding checkMissingFiles_eq
    by (simp add: start_def eq) (simp add: constructor_def)
  then show "length (issues (analyzer (snd (checkMissingFiles fs (start reference_pages))))) = 20"
    by simp
qed

theorem checkMissingFiles_missing_baselines_witness:
  "(\<forall>f. \<not> existsSync Map.empty (path_join ''visual-tests/baselines'' f))
   \<and> length (issues (analyzer (snd (checkMissingFiles Map.empty (start reference_pages))))) = 20
   \<and> map filename (issues (analyzer (snd (checkMissingFiles Map.empty (start reference_pages))))) =
       concat (map (\<lambda>d. replicate 5 (Some (d @ ''-addpagehere-baseline.png'')))
                [''Mobile'', ''Mobile-Large'', ''Tablet'', ''Desktop''])"
proof -
  have none: "\<forall>f. \<not> existsSync Map.empty (path_join ''visual-tests/baselines'' f)"
    by (simp add: existsSync_def)
  note inst = checkMissingFiles_missing_baselines [of Map.empty "start reference_pages",
      THEN conjunct2, THEN conjunct2, THEN conjunct2, THEN mp, OF none]
  have "map filename (issues (analyzer (snd (checkMissingFiles Map.empty (start reference_pages))))) =
       concat (map (\<lambda>d. replicate 5 (Some (d @ ''-addpagehere-baseline.png'')))
                [''Mobile'', ''Mobile-Large'', ''Tablet'', ''Desktop''])"
    unfolding inst [THEN conjunct2] by (simp add: missing_baseline_def eval_nat_numeral)
  with none inst [THEN conjunct1] show ?thesis by blast
qed

text \<open>
  Claim C4. When \<^verbatim>\<open>analyze\<close> succeeds on a fresh analyzer, every issue of the list it
  returns has severity \<open>HIGH\<close> or \<open>MEDIUM\<close>. The report ends with the summary lines, in
  which the count of total issues is the length of the issue list and the counts of
  critical and of medium issues are the numbers of its \<open>HIGH\<close> and \<open>MEDIUM\<close> issues; the
  total is the sum of the two.
\<close>

theorem analyze_summary_counts:
  "analyze fs (start ps) = (Inr found, p') \<Longrightarrow>
     found = issues (analyzer p')
     \<and> (\<forall>i \<in> set found. severity i = HIGH \<or> severity i = MEDIUM)
     \<and> (\<exists>before. stdout p' = before @
           [newline @ emoji_chart @ '' ANALYSIS SUMMARY:'',
            ''   Critical Issues: '' @ toString (length (filter (\<lambda>i. severity i = HIGH) found)),
            ''   Medium Issues: '' @ toString (length (filter (\<lambda>i. severity i = MEDIUM) found)),
            ''   Total Issues: '' @ toString (length found),
            ''   Devices Tested: '' @ toString 4,
            ''   Pages Analyzed: '' @ toString (length ps)])
     \<and> length found = length (filter (\<lambda>i. severity i = HIGH) found)
                      + length (filter (\<lambda>i. severity i = MEDIUM) found)"
proof -
  assume run: "analyze fs (start ps) = (Inr found, p')"
  obtain entries ls where
    dir: "fs ''visual-tests/baselines'' = Some entries" and
    found: "found = phase1_issues fs (constructor ps) @ phase2_issues fs (constructor ps)
             @ phase3_issues (map fst entries)" and
    p': "p' = (start ps)\<lparr>analyzer := (constructor ps)\<lparr>issues := found\<rparr>,
            stdout := progress fs (constructor ps) @ ls
                      @ summary ((constructor ps)\<lparr>issues := found\<rparr>)\<rparr>"
    by (rule analyze_start_success [OF run])
  have sev: "severity i = HIGH \<or> severity i = MEDIUM" if "i \<in> set found" for i
  proof -
    from that have "i \<in> set (phase1_issues fs (constructor ps))
        \<or> i \<in> set (phase2_issues fs (constructor ps))
        \<or> i \<in> set (phase3_issues (map fst entries))"
      unfolding found by simp
    then show ?thesis
      using severity_phase1 [of i fs "constructor ps"] severity_phase2 [of i fs "constructor ps"]
        severity_phase3 [of i "map fst entries"]
      by blast
  qed
  have out: "stdout p' = (progress fs (constructor ps) @ ls) @
           [newline @ emoji_chart @ '' ANALYSIS SUMMARY:'',
            ''   Critical Issues: '' @ toString (length (filter (\<lambda>i. severity i = HIGH) found)),
            ''   Medium Issues: '' @ toString (length (filter (\<lambda>i. severity i = MEDIUM) found)),
            ''   Total Issues: '' @ toString (length found),
            ''   Devices Tested: '' @ toString 4,
            ''   Pages Analyzed: '' @ toString (length ps)]"
    unfolding p' by (simp add: summary_def constructor_def eval_nat_numeral)
  show ?thesis
  proof (intro conjI)
    show "found = issues (analyzer p')" unfolding p' by simp
    show "\<forall>i \<in> set found. severity i = HIGH \<or> severity i = MEDIUM"
      using sev by blast
    show "\<exists>before. stdout p' = before @
           [newline @ emoji_chart @ '' ANALYSIS SUMMARY:'',
            ''   Critical Issues: '' @ toString (length (filter (\<lambda>i. severity i = HIGH) found)),
            ''   Medium Issues: '' @ toString (length (filter (\<lambda>i. severity i = MEDIUM) found)),
            ''   Total Issues: '' @ toString (length found),
            ''   Devices Tested: '' @ toString 4,
            ''   Pages Analyzed: '' @ toString (length ps)]"
      by (rule exI [of _ "progress fs (constructor ps) @ ls"]) (rule out)
    show "length found = length (filter (\<lambda>i. severity i = HIGH) found)
                      + length (filter (\<lambda>i. severity i = MEDIUM) found)"
      using sev by (rule length_filter_two_severities)
  qed
qed

theorem analyze_summary_counts_witness:
  "fst (analyze [''visual-tests/baselines'' \<mapsto> []] (start reference_pages)) =
     Inr (issues (analyzer (snd (analyze [''visual-tests/baselines'' \<mapsto> []]
                                   (start reference_pages)))))
   \<and> length (issues (analyzer (snd (analyze [''visual-tests/baselines'' \<mapsto> []]
                                   (start reference_pages))))) = 27
   \<and> length (filter (\<lambda>i. severity i = HIGH)
         (issues (analyzer (snd (analyze [''visual-tests/baselines'' \<mapsto> []]
                                   (start reference_pages)))))) = 26
   \<and> length (filter (\<lambda>i. severity i = MEDIUM)
         (issues (analyzer (snd (analyze [''visual-tests/baselines'' \<mapsto> []]
                                   (start reference_pages)))))) = 1"
proof -
  let ?fs = "[''visual-tests/baselines'' \<mapsto> ([] :: directory)]"
  have dir: "?fs (baselinesDir (analyzer (start reference_pages))) = Some []" by simp
  have a: "analyzer (start reference_pages) = constructor reference_pages"
    by (simp add: start_def)
  from analyze_Some [of "start reference_pages" ?fs "[]", OF start_distinct dir]
  obtain found p' where run: "analyze ?fs (start reference_pages) = (Inr found, p')"
    and found: "found = issues (analyzer (start reference_pages))
                  @ phase1_issues ?fs (analyzer (start reference_pages))
                  @ phase2_issues ?fs (analyzer (start reference_pages))
                  @ phase3_issues (map fst ([] :: directory))"
    by blast
  note facts = analyze_summary_counts [OF run]
  note ret = facts [THEN conjunct1]
  note sum = facts [THEN conjunct2, THEN conjunct2, THEN conjunct2]
  have len: "length found = 27"
    unfolding found a empty_directory_found by (simp add: constructor_issues)
  have high: "length (filter (\<lambda>i. severity i = HIGH) found) = 26"
    unfolding found a empty_directory_found
    by (simp add: constructor_issues missing_device_support_def missing_baseline_def
        mobile_nav_missing_def incomplete_homepage_testing_def)
  have medium: "length (filter (\<lambda>i. severity i = MEDIUM) found) = 1"
    using sum len high by simp
  have "fst (analyze ?fs (start reference_pages)) = Inr found"
    and "issues (analyzer (snd (analyze ?fs (start reference_pages)))) = found"
    using ret by (simp_all add: run)
  with len high medium show ?thesis by simp
qed

text \<open>
  Claim C5. When the baseline directory does not exist, \<^verbatim>\<open>analyze\<close> fails with the
  \<open>ENOENT\<close> error of the directory listing of Phase 3. The entry point reports this error,
  and nothing else, on the standard error. The standard output holds seven progress lines,
  those logged up to the listing: neither a line of the recommendation report nor the
  completion line is printed. When the page names are single path components, the two
  counts in the progress lines are the number of page entries and four times that number.
\<close>

theorem missing_directory_fails:
  "fs ''visual-tests/baselines'' = None \<Longrightarrow>
     fst (analyze fs (start ps)) = Inl (ENOENT scandir ''visual-tests/baselines'')
     \<and> stderr (main ps fs) = [ENOENT scandir ''visual-tests/baselines'']
     \<and> (\<exists>n m. stdout (main ps fs) =
         [''Starting Cross-Device Visual Analysis...'',
          ''2025 Mobile-First Responsive Design Standards Check'' @ newline,
          emoji_ruler @ '' Analyzing screenshot file sizes across devices...'',
          ''OK--> Size analysis complete. Found '' @ toString n
            @ '' potential issues.'' @ newline,
          emoji_clipboard @ '' Checking for missing baseline files...'',
          ''OK--> File check complete. '' @ toString m @ '' missing files.'' @ newline,
          emoji_palette @ '' Analyzing layout patterns for 2025 best practices...''])
     \<and> (list_all single_component ps \<longrightarrow>
         stdout (main ps fs) =
         [''Starting Cross-Device Visual Analysis...'',
          ''2025 Mobile-First Responsive Design Standards Check'' @ newline,
          emoji_ruler @ '' Analyzing screenshot file sizes across devices...'',
          ''OK--> Size analysis complete. Found '' @ toString (length ps)
            @ '' potential issues.'' @ newline,
          emoji_clipboard @ '' Checking for missing baseline files...'',
          ''OK--> File check complete. '' @ toString (4 * length ps) @ '' missing files.''
            @ newline,
          emoji_palette @ '' Analyzing layout patterns for 2025 best practices...''])
     \<and> completion_line \<notin> set (stdout (main ps fs))
     \<and> emoji_bulb @ '' Generating 2025 Mobile-First Recommendations...'' @ newline
           \<notin> set (stdout (main ps fs))"
proof (intro conjI impI)
  assume none: "fs ''visual-tests/baselines'' = None"
  show "fst (analyze fs (start ps)) = Inl (ENOENT scandir ''visual-tests/baselines'')"
    by (simp add: analyze_via_main_None [of fs ps, OF none])
  show "stderr (main ps fs) = [ENOENT scandir ''visual-tests/baselines'']"
    by (simp add: main_None [of fs ps, OF none])
  show out: "stdout (main ps fs) =
         [''Starting Cross-Device Visual Analysis...'',
          ''2025 Mobile-First Responsive Design Standards Check'' @ newline,
          emoji_ruler @ '' Analyzing screenshot file sizes across devices...'',
          ''OK--> Size analysis complete. Found '' @ toString (length ps)
            @ '' potential issues.'' @ newline,
          emoji_clipboard @ '' Checking for missing baseline files...'',
          ''OK--> File check complete. '' @ toString (4 * length ps) @ '' missing files.''
            @ newline,
          emoji_palette @ '' Analyzing layout patterns for 2025 best practices...'']"
    by (simp add: main_None [of fs ps, OF none])
  show "\<exists>n m. stdout (main ps fs) =
         [''Starting Cross-Device Visual Analysis...'',
          ''2025 Mobile-First Responsive Design Standards Check'' @ newline,
          emoji_ruler @ '' Analyzing screenshot file sizes across devices...'',
          ''OK--> Size analysis complete. Found '' @ toString n
            @ '' potential issues.'' @ newline,
          emoji_clipboard @ '' Checking for missing baseline files...'',
          ''OK--> File check complete. '' @ toString m @ '' missing files.'' @ newline,
          emoji_palette @ '' Analyzing layout patterns for 2025 best practices...'']"
    by (rule exI [of _ "length ps"], rule exI [of _ "4 * length ps"]) (rule out)
  show "completion_line \<notin> set (stdout (main ps fs))"
    unfolding out
    by (simp add: completion_line_def newline_def emoji_ruler_def emoji_clipboard_def
        emoji_palette_def)
  show "emoji_bulb @ '' Generating 2025 Mobile-First Recommendations...'' @ newline
           \<notin> set (stdout (main ps fs))"
    unfolding out
    by (simp add: emoji_bulb_def newline_def emoji_ruler_def emoji_clipboard_def
        emoji_palette_def)
qed

theorem missing_directory_fails_witness:
  "(Map.empty :: filesystem) ''visual-tests/baselines'' = None
   \<and> list_all single_component reference_pages
   \<and> stderr (main reference_pages Map.empty) = [ENOENT scandir ''visual-tests/baselines'']
   \<and> length (stdout (main reference_pages Map.empty)) = 7
   \<and> stdout (main reference_pages Map.empty) ! 3 =
       ''OK--> Size analysis complete. Found '' @ toString (length reference_pages)
         @ '' potential issues.'' @ newline
   \<and> completion_line \<notin> set (stdout (main reference_pages Map.empty))"
proof -
  have none: "(Map.empty :: filesystem) ''visual-tests/baselines'' = None" by simp
  have names: "list_all single_component reference_pages"
    by (simp add: single_component_def reference_pages_def)
  note inst = missing_directory_fails [of Map.empty reference_pages, OF none]
  note out = inst [THEN conjunct2, THEN conjunct2, THEN conjunct2, THEN conjunct1, THEN mp,
      OF names]
  have "length (stdout (main reference_pages Map.empty)) = 7"
    by (simp add: out)
  moreover have "stdout (main reference_pages Map.empty) ! 3 =
       ''OK--> Size analysis complete. Found '' @ toString (length reference_pages)
         @ '' potential issues.'' @ newline"
    by (simp add: out)
  moreover note none names inst [THEN conjunct2, THEN conjunct1]
    inst [THEN conjunct2, THEN conjunct2, THEN conjunct2, THEN conjunct2, THEN conjunct1]
  ultimately show ?thesis by blast
qed
text \<open>
  Claim C6. When the baseline directory exists, \<^verbatim>\<open>analyzeLayoutPatterns\<close> does not throw
  and appends a \<open>MOBILE_NAV_MISSING\<close> issue, of severity \<open>HIGH\<close>, if and only if no name in
  the listing of the directory contains both \<^verbatim>\<open>nav\<close> and \<^verbatim>\<open>Mobile\<close> as substrings. A
  directory holding only \<^verbatim>\<open>Desktop-home-baseline.png\<close> yields the issue; with
  \<^verbatim>\<open>Mobile-navbar-baseline.png\<close> added, it does not.
\<close>

theorem analyzeLayoutPatterns_mobile_nav:
  "fs (baselinesDir (analyzer p)) = Some entries \<Longrightarrow>
     fst (analyzeLayoutPatterns fs p) = Inr ()
     \<and> filter (\<lambda>i. type i = MOBILE_NAV_MISSING)
          (issues (analyzer (snd (analyzeLayoutPatterns fs p)))) =
        filter (\<lambda>i. type i = MOBILE_NAV_MISSING) (issues (analyzer p)) @
        (if \<exists>file \<in> set (map fst entries). str_includes file ''nav'' \<and> str_includes file ''Mobile''
         then [] else [mobile_nav_missing])
     \<and> (str_includes file' sub \<longleftrightarrow> (\<exists>a b. file' = a @ sub @ b))
     \<and> mobile_nav_missing =
         \<lparr>type = MOBILE_NAV_MISSING, page = None, severity = HIGH,
          description =
            ''No mobile navigation screenshots found - hamburger menu testing required'',
          issue.devices = None, device = None, sizes = None, filename = None\<rparr>
     \<and> filter (\<lambda>i. type i = MOBILE_NAV_MISSING)
          (issues (analyzer (snd (analyzeLayoutPatterns
             [''visual-tests/baselines'' \<mapsto> [(''Desktop-home-baseline.png'', n)]]
             (start ps))))) = [mobile_nav_missing]
     \<and> filter (\<lambda>i. type i = MOBILE_NAV_MISSING)
          (issues (analyzer (snd (analyzeLayoutPatterns
             [''visual-tests/baselines'' \<mapsto> [(''Desktop-home-baseline.png'', n),
                                               (''Mobile-navbar-baseline.png'', m)]]
             (start ps))))) = []"
proof (intro conjI)
  assume dir: "fs (baselinesDir (analyzer p)) = Some entries"
  show "fst (analyzeLayoutPatterns fs p) = Inr ()"
    by (simp add: analyzeLayoutPatterns_Some [of fs p, OF dir])
  show "filter (\<lambda>i. type i = MOBILE_NAV_MISSING)
          (issues (analyzer (snd (analyzeLayoutPatterns fs p)))) =
        filter (\<lambda>i. type i = MOBILE_NAV_MISSING) (issues (analyzer p)) @
        (if \<exists>file \<in> set (map fst entries). str_includes file ''nav'' \<and> str_includes file ''Mobile''
         then [] else [mobile_nav_missing])"
    by (simp only: analyzeLayoutPatterns_Some [of fs p, OF dir] snd_conv console_log_sel add_issues_sel
        filter_append phase3_nav_filter)
  show "str_includes file' sub \<longleftrightarrow> (\<exists>a b. file' = a @ sub @ b)"
    by (rule str_includes_iff)
  show "mobile_nav_missing =
         \<lparr>type = MOBILE_NAV_MISSING, page = None, severity = HIGH,
          description =
            ''No mobile navigation screenshots found - hamburger menu testing required'',
          issue.devices = None, device = None, sizes = None, filename = None\<rparr>"
    by (simp add: mobile_nav_missing_def)
  have d: "baselinesDir (analyzer (start ps)) = ''visual-tests/baselines''"
    by (simp add: start_def constructor_def)
  have i: "issues (analyzer (start ps)) = []"
    by (simp add: start_def constructor_def)
  show "filter (\<lambda>i. type i = MOBILE_NAV_MISSING)
          (issues (analyzer (snd (analyzeLayoutPatterns
             [''visual-tests/baselines'' \<mapsto> [(''Desktop-home-baseline.png'', n)]]
             (start ps))))) = [mobile_nav_missing]"
    by (subst analyzeLayoutPatterns_Some [of _ "start ps" "[(''Desktop-home-baseline.png'', n)]"])
      (simp_all add: d i phase3_nav_filter)
  show "filter (\<lambda>i. type i = MOBILE_NAV_MISSING)
          (issues (analyzer (snd (analyzeLayoutPatterns
             [''visual-tests/baselines'' \<mapsto> [(''Desktop-home-baseline.png'', n),
                                               (''Mobile-navbar-baseline.png'', m)]]
             (start ps))))) = []"
    by (subst analyzeLayoutPatterns_Some [of _ "start ps" "[(''Desktop-home-baseline.png'', n),
                                               (''Mobile-navbar-baseline.png'', m)]"])
      (simp_all add: d i phase3_nav_filter)
qed

theorem analyzeLayoutPatterns_mobile_nav_witness:
  "[''visual-tests/baselines'' \<mapsto> [(''Tablet-nav-baseline.png'', 7::nat)]]
     (baselinesDir (analyzer (start reference_pages))) = Some [(''Tablet-nav-baseline.png'', 7)]
   \<and> issues (analyzer (snd (analyzeLayoutPatterns
        [''visual-tests/baselines'' \<mapsto> [(''Tablet-nav-baseline.png'', 7)]]
        (start reference_pages)))) = [mobile_nav_missing, incomplete_homepage_testing]
   \<and> filter (\<lambda>i. type i = MOBILE_NAV_MISSING)
        (issues (analyzer (snd (analyzeLayoutPatterns
           [''visual-tests/baselines'' \<mapsto> [(''Tablet-nav-baseline.png'', 7)]]
           (start reference_pages))))) = [mobile_nav_missing]"
proof -
  let ?fs = "[''visual-tests/baselines'' \<mapsto> [(''Tablet-nav-baseline.png'', 7::nat)]]"
  have dir: "?fs (baselinesDir (analyzer (start reference_pages))) =
             Some [(''Tablet-nav-baseline.png'', 7)]"
    by (simp add: start_def constructor_def)
  have all: "issues (analyzer (snd (analyzeLayoutPatterns ?fs (start reference_pages)))) =
             [mobile_nav_missing, incomplete_homepage_testing]"
    by (simp add: analyzeLayoutPatterns_Some [of ?fs "start reference_pages", OF dir]
        phase3_issues_def)
  have "filter (\<lambda>i. type i = MOBILE_NAV_MISSING)
        (issues (analyzer (snd (analyzeLayoutPatterns ?fs (start reference_pages))))) =
        [mobile_nav_missing]"
    using analyzeLayoutPatterns_mobile_nav [of ?fs "start reference_pages", OF dir,
        THEN conjunct2, THEN conjunct1]
    by (simp add: start_def constructor_def)
  with dir all show ?thesis by blast
qed

text \<open>
  Claim C7. When the baseline directory exists, \<^verbatim>\<open>analyzeLayoutPatterns\<close> appends an
  \<open>INCOMPLETE_HOMEPAGE_TESTING\<close> issue, of severity \<open>MEDIUM\<close>, if and only if fewer than four
  names in the listing of the directory contain both \<^verbatim>\<open>homepage\<close> and \<^verbatim>\<open>baseline\<close> as
  substrings: with exactly three such names the issue is appended, with four or more it is
  not.
\<close>

theorem analyzeLayoutPatterns_homepage:
  "fs (baselinesDir (analyzer p)) = Some entries \<Longrightarrow>
     fst (analyzeLayoutPatterns fs p) = Inr ()
     \<and> filter (\<lambda>i. type i = INCOMPLETE_HOMEPAGE_TESTING)
          (issues (analyzer (snd (analyzeLayoutPatterns fs p)))) =
        filter (\<lambda>i. type i = INCOMPLETE_HOMEPAGE_TESTING) (issues (analyzer p)) @
        (if length (filter (\<lambda>file. str_includes file ''homepage'' \<and> str_includes file ''baseline'')
                      (map fst entries)) < 4
         then [incomplete_homepage_testing] else [])
     \<and> (str_includes file' sub \<longleftrightarrow> (\<exists>a b. file' = a @ sub @ b))
     \<and> incomplete_homepage_testing =
         \<lparr>type = INCOMPLETE_HOMEPAGE_TESTING, page = None, severity = MEDIUM,
          description = ''Homepage not tested on all device sizes'',
          issue.devices = None, device = None, sizes = None, filename = None\<rparr>
     \<and> (length (filter (\<lambda>file. str_includes file ''homepage'' \<and> str_includes file ''baseline'')
                   (map fst entries)) = 3 \<longrightarrow>
          incomplete_homepage_testing
            \<in> set (issues (analyzer (snd (analyzeLayoutPatterns fs p)))))
     \<and> (4 \<le> length (filter (\<lambda>file. str_includes file ''homepage'' \<and> str_includes file ''baseline'')
                       (map fst entries)) \<longrightarrow>
          filter (\<lambda>i. type i = INCOMPLETE_HOMEPAGE_TESTING)
            (issues (analyzer (snd (analyzeLayoutPatterns fs p)))) =
          filter (\<lambda>i. type i = INCOMPLETE_HOMEPAGE_TESTING) (issues (analyzer p)))"
proof (intro conjI impI)
  assume dir: "fs (baselinesDir (analyzer p)) = Some entries"
  show "fst (analyzeLayoutPatterns fs p) = Inr ()"
    by (simp add: analyzeLayoutPatterns_Some [of fs p, OF dir])
  show eq: "filter (\<lambda>i. type i = INCOMPLETE_HOMEPAGE_TESTING)
          (issues (analyzer (snd (analyzeLayoutPatterns fs p)))) =
        filter (\<lambda>i. type i = INCOMPLETE_HOMEPAGE_TESTING) (issues (analyzer p)) @
        (if length (filter (\<lambda>file. str_includes file ''homepage'' \<and> str_includes file ''baseline'')
                      (map fst entries)) < 4
         then [incomplete_homepage_testing] else [])"
    by (simp only: analyzeLayoutPatterns_Some [of fs p, OF dir] snd_conv console_log_sel add_issues_sel
        filter_append phase3_homepage_filter)
  show "str_includes file' sub \<longleftrightarrow> (\<exists>a b. file' = a @ sub @ b)"
    by (rule str_includes_iff)
  show "incomplete_homepage_testing =
         \<lparr>type = INCOMPLETE_HOMEPAGE_TESTING, page = None, severity = MEDIUM,
          description = ''Homepage not tested on all device sizes'',
          issue.devices = None, device = None, sizes = None, filename = None\<rparr>"
    by (simp add: incomplete_homepage_testing_def)
  show "incomplete_homepage_testing \<in> set (issues (analyzer (snd (analyzeLayoutPatterns fs p))))"
    if "length (filter (\<lambda>file. str_includes file ''homepage'' \<and> str_includes file ''baseline'')
                   (map fst entries)) = 3"
    using that by (simp add: analyzeLayoutPatterns_Some [of fs p, OF dir] phase3_issues_def)
  show "filter (\<lambda>i. type i = INCOMPLETE_HOMEPAGE_TESTING)
            (issues (analyzer (snd (analyzeLayoutPatterns fs p)))) =
          filter (\<lambda>i. type i = INCOMPLETE_HOMEPAGE_TESTING) (issues (analyzer p))"
    if "4 \<le> length (filter (\<lambda>file. str_includes file ''homepage'' \<and> str_includes file ''baseline'')
                       (map fst entries))"
    using that by (simp add: eq)
qed


theorem analyzeLayoutPatterns_homepage_witness:
  "[''visual-tests/baselines'' \<mapsto>
      [(''Mobile-homepage-baseline.png'', 10::nat), (''Tablet-homepage-baseline.png'', 20),
       (''Desktop-homepage-baseline.png'', 30), (''Desktop-about-baseline.png'', 40)]]
     (baselinesDir (analyzer (start reference_pages))) =
   Some [(''Mobile-homepage-baseline.png'', 10), (''Tablet-homepage-baseline.png'', 20),
         (''Desktop-homepage-baseline.png'', 30), (''Desktop-about-baseline.png'', 40)]
   \<and> length (filter (\<lambda>file. str_includes file ''homepage'' \<and> str_includes file ''baseline'')
        (map fst [(''Mobile-homepage-baseline.png'', 10::nat), (''Tablet-homepage-baseline.png'', 20),
                  (''Desktop-homepage-baseline.png'', 30), (''Desktop-about-baseline.png'', 40)])) = 3
   \<and> incomplete_homepage_testing
        \<in> set (issues (analyzer (snd (analyzeLayoutPatterns
             [''visual-tests/baselines'' \<mapsto>
               [(''Mobile-homepage-baseline.png'', 10), (''Tablet-homepage-baseline.png'', 20),
                (''Desktop-homepage-baseline.png'', 30), (''Desktop-about-baseline.png'', 40)]]
             (start reference_pages)))))"
proof -
  let ?entries = "[(''Mobile-homepage-baseline.png'', 10::nat), (''Tablet-homepage-baseline.png'', 20),
                   (''Desktop-homepage-baseline.png'', 30), (''Desktop-about-baseline.png'', 40)]"
  let ?fs = "[''visual-tests/baselines'' \<mapsto> ?entries]"
  have dir: "?fs (baselinesDir (analyzer (start reference_pages))) = Some ?entries"
    by (simp add: start_def constructor_def)
  have three: "length (filter (\<lambda>file. str_includes file ''homepage'' \<and> str_includes file ''baseline'')
        (map fst ?entries)) = 3"
    by simp
  from analyzeLayoutPatterns_homepage [of ?fs "start reference_pages" ?entries, OF dir]
  have "length (filter (\<lambda>file. str_includes file ''homepage'' \<and> str_includes file ''baseline'')
                   (map fst ?entries)) = 3 \<longrightarrow>
          incomplete_homepage_testing
            \<in> set (issues (analyzer (snd (analyzeLayoutPatterns ?fs (start reference_pages)))))"
    by blast
  with three dir show ?thesis by blast
qed

text \<open>
  Claim C8. The constructor creates an empty issue list. A successful \<^verbatim>\<open>analyze\<close> is the
  run, in this order, of the size analysis, the missing-file check, the layout-pattern
  analysis and the recommendation generation, each on the process the one before left. The
  issue list before a phase is a prefix of the issue list after it, so issues are appended
  and none is removed or changed; Phase 4 leaves the list as it is; the value returned is the
  issue list of the analyzer.
\<close>

theorem analyze_phase_order:
  "issues (constructor ps) = []
   \<and> (analyze fs p = (Inr found, p') \<longrightarrow>
        (\<exists>p1 p2 p3.
           analyzeSizes fs
             (console_log (''2025 Mobile-First Responsive Design Standards Check'' @ newline)
                (console_log ''Starting Cross-Device Visual Analysis...'' p)) = (Inr (), p1)
           \<and> checkMissingFiles fs p1 = (Inr (), p2)
           \<and> analyzeLayoutPatterns fs p2 = (Inr (), p3)
           \<and> generateRecommendations p3 = (Inr (), p')
           \<and> prefix (issues (analyzer p)) (issues (analyzer p1))
           \<and> prefix (issues (analyzer p1)) (issues (analyzer p2))
           \<and> prefix (issues (analyzer p2)) (issues (analyzer p3))
           \<and> issues (analyzer p') = issues (analyzer p3)
           \<and> found = issues (analyzer p')))"
proof (intro conjI impI)
  show "issues (constructor ps) = []" by (rule constructor_issues)
next
  assume run: "analyze fs p = (Inr found, p')"
  let ?p0 = "console_log (''2025 Mobile-First Responsive Design Standards Check'' @ newline)
                (console_log ''Starting Cross-Device Visual Analysis...'' p)"
  obtain p1 where 1: "analyzeSizes fs ?p0 = (Inr (), p1)"
    and i1: "prefix (issues (analyzer p)) (issues (analyzer p1))"
    by (simp add: analyzeSizes_general)
  obtain p2 where 2: "checkMissingFiles fs p1 = (Inr (), p2)"
    and i2: "prefix (issues (analyzer p1)) (issues (analyzer p2))"
    by (simp add: checkMissingFiles_eq)
  obtain p3 where 3: "analyzeLayoutPatterns fs p2 = (Inr (), p3)"
    and i3: "prefix (issues (analyzer p2)) (issues (analyzer p3))"
  proof (cases "fs (baselinesDir (analyzer p2))")
    case None
    from analyzeLayoutPatterns_None [of fs p2, OF None] run show ?thesis
      by (simp only: analyze_def Let_def 1 2 prod.case sum.case) simp
  next
    case (Some entries)
    from analyzeLayoutPatterns_Some [of fs p2 entries, OF Some] that show ?thesis
      by simp
  qed
  obtain ls where 4: "generateRecommendations p3 =
                        (Inr (), p3\<lparr>stdout := stdout p3 @ ls @ summary (analyzer p3)\<rparr>)"
    using generateRecommendations_eq by blast
  from run have res: "found = issues (analyzer p3)"
    "p' = p3\<lparr>stdout := stdout p3 @ ls @ summary (analyzer p3)\<rparr>"
    by (simp_all only: analyze_def Let_def 1 2 3 4 prod.case sum.case prod.inject sum.inject)
       simp_all
  have "analyzeSizes fs ?p0 = (Inr (), p1)
           \<and> checkMissingFiles fs p1 = (Inr (), p2)
           \<and> analyzeLayoutPatterns fs p2 = (Inr (), p3)
           \<and> generateRecommendations p3 = (Inr (), p')
           \<and> prefix (issues (analyzer p)) (issues (analyzer p1))
           \<and> prefix (issues (analyzer p1)) (issues (analyzer p2))
           \<and> prefix (issues (analyzer p2)) (issues (analyzer p3))
           \<and> issues (analyzer p') = issues (analyzer p3)
           \<and> found = issues (analyzer p')"
    using 1 2 3 4 i1 i2 i3 res by simp
  then show "\<exists>p1 p2 p3.
           analyzeSizes fs ?p0 = (Inr (), p1)
           \<and> checkMissingFiles fs p1 = (Inr (), p2)
           \<and> analyzeLayoutPatterns fs p2 = (Inr (), p3)
           \<and> generateRecommendations p3 = (Inr (), p')
           \<and> prefix (issues (analyzer p)) (issues (analyzer p1))
           \<and> prefix (issues (analyzer p1)) (issues (analyzer p2))
           \<and> prefix (issues (analyzer p2)) (issues (analyzer p3))
           \<and> issues (analyzer p') = issues (analyzer p3)
           \<and> found = issues (analyzer p')"
    by (intro exI)
qed


theorem analyze_phase_order_witness:
  "fst (analyze [''visual-tests/baselines'' \<mapsto> []] (start reference_pages)) =
     Inr (issues (analyzer (snd (analyze [''visual-tests/baselines'' \<mapsto> []]
                                   (start reference_pages)))))
   \<and> prefix (issues (analyzer (start reference_pages)))
        (issues (analyzer (snd (analyze [''visual-tests/baselines'' \<mapsto> []]
                                  (start reference_pages)))))
   \<and> fst (generateRecommendations
            (snd (analyzeLayoutPatterns [''visual-tests/baselines'' \<mapsto> []]
               (snd (checkMissingFiles [''visual-tests/baselines'' \<mapsto> []]
                  (snd (analyzeSizes [''visual-tests/baselines'' \<mapsto> []]
                     (console_log (''2025 Mobile-First Responsive Design Standards Check''
                                   @ newline)
                        (console_log ''Starting Cross-Device Visual Analysis...''
                           (start reference_pages)))))))))) = Inr ()"
proof -
  let ?fs = "[''visual-tests/baselines'' \<mapsto> ([] :: directory)]"
  have dir: "?fs (baselinesDir (analyzer (start reference_pages))) = Some []" by simp
  from analyze_Some [of "start reference_pages" ?fs "[]", OF start_distinct dir]
  obtain found p' where run: "analyze ?fs (start reference_pages) = (Inr found, p')"
    by blast
  from analyze_phase_order [of reference_pages ?fs "start reference_pages" found p',
      THEN conjunct2, THEN mp, OF run]
  obtain p1 p2 p3 where
    1: "analyzeSizes ?fs
          (console_log (''2025 Mobile-First Responsive Design Standards Check'' @ newline)
             (console_log ''Starting Cross-Device Visual Analysis...'' (start reference_pages)))
        = (Inr (), p1)" and
    2: "checkMissingFiles ?fs p1 = (Inr (), p2)" and
    3: "analyzeLayoutPatterns ?fs p2 = (Inr (), p3)" and
    4: "generateRecommendations p3 = (Inr (), p')" and
    pre: "prefix (issues (analyzer (start reference_pages))) (issues (analyzer p1))"
         "prefix (issues (analyzer p1)) (issues (analyzer p2))"
         "prefix (issues (analyzer p2)) (issues (analyzer p3))" and
    same: "issues (analyzer p') = issues (analyzer p3)" and
    ret: "found = issues (analyzer p')"
    by blast
  have "prefix (issues (analyzer (start reference_pages))) (issues (analyzer p'))"
    using pre same by (metis prefix_order.order_trans)
  moreover have "fst (analyze ?fs (start reference_pages)) = Inr (issues (analyzer p'))"
    using ret by (simp add: run)
  moreover have "fst (generateRecommendations
            (snd (analyzeLayoutPatterns ?fs (snd (checkMissingFiles ?fs (snd (analyzeSizes ?fs
                     (console_log (''2025 Mobile-First Responsive Design Standards Check''
                                   @ newline)
                        (console_log ''Starting Cross-Device Visual Analysis...''
                           (start reference_pages)))))))))) = Inr ()"
    by (simp only: 1 2 3 4 snd_conv fst_conv)
  ultimately show ?thesis by (simp add: run)
qed

text \<open>
  Claim C9. Phases 1 and 2 never throw, whatever the file system is. When the baseline
  directory does not exist, the listing of Phase 3 throws, and the issue list of the
  analyzer then holds every issue of Phases 1 and 2: when the page names are single path
  components, one \<open>MISSING_DEVICE_SUPPORT\<close> issue for each page entry followed by one
  \<open>MISSING_BASELINE\<close> issue for each device and page entry. With the reference
  configuration these are 5 and 20 issues, so the failed run has changed the issue list of
  the analyzer.
\<close>

theorem missing_directory_keeps_issues:
  "fs ''visual-tests/baselines'' = None \<Longrightarrow>
     fst (analyzeSizes fs q) = Inr ()
     \<and> fst (checkMissingFiles fs q) = Inr ()
     \<and> fst (analyzeLayoutPatterns fs (start ps)) = Inl (ENOENT scandir ''visual-tests/baselines'')
     \<and> fst (analyze fs (start ps)) = Inl (ENOENT scandir ''visual-tests/baselines'')
     \<and> (list_all single_component ps \<longrightarrow>
         issues (analyzer (snd (analyze fs (start ps)))) =
         map (\<lambda>pg. missing_device_support pg [''Mobile'', ''Mobile-Large'', ''Tablet'', ''Desktop'']) ps
         @ concat (map (\<lambda>d. map (\<lambda>pg. missing_baseline pg d (d @ ''-'' @ pg @ ''-baseline.png'')) ps)
                    [''Mobile'', ''Mobile-Large'', ''Tablet'', ''Desktop'']))
     \<and> issues (analyzer (snd (analyze fs (start reference_pages)))) =
         replicate 5 (missing_device_support ''addpagehere''
                        [''Mobile'', ''Mobile-Large'', ''Tablet'', ''Desktop''])
         @ concat (map (\<lambda>d. replicate 5
                          (missing_baseline ''addpagehere'' d (d @ ''-addpagehere-baseline.png'')))
                    [''Mobile'', ''Mobile-Large'', ''Tablet'', ''Desktop''])
     \<and> length (filter (\<lambda>i. type i = MISSING_DEVICE_SUPPORT)
                  (issues (analyzer (snd (analyze fs (start reference_pages)))))) = 5
     \<and> length (filter (\<lambda>i. type i = MISSING_BASELINE)
                  (issues (analyzer (snd (analyze fs (start reference_pages)))))) = 20
     \<and> length (issues (analyzer (snd (analyze fs (start reference_pages))))) = 25
     \<and> issues (analyzer (snd (analyze fs (start reference_pages))))
          \<noteq> issues (analyzer (start reference_pages))"
proof (intro conjI impI)
  assume none: "fs ''visual-tests/baselines'' = None"
  show "fst (analyzeSizes fs q) = Inr ()" by (rule analyzeSizes_no_throw)
  show "fst (checkMissingFiles fs q) = Inr ()" by (rule checkMissingFiles_no_throw)
  have none': "fs (baselinesDir (analyzer (start ps))) = None" using none by simp
  show "fst (analyzeLayoutPatterns fs (start ps)) = Inl (ENOENT scandir ''visual-tests/baselines'')"
    by (simp add: analyzeLayoutPatterns_None [of fs "start ps", OF none'])
  show "fst (analyze fs (start ps)) = Inl (ENOENT scandir ''visual-tests/baselines'')"
    by (simp add: analyze_via_main_None [of fs ps, OF none])
  show "issues (analyzer (snd (analyze fs (start ps)))) =
         map (\<lambda>pg. missing_device_support pg [''Mobile'', ''Mobile-Large'', ''Tablet'', ''Desktop'']) ps
         @ concat (map (\<lambda>d. map (\<lambda>pg. missing_baseline pg d (d @ ''-'' @ pg @ ''-baseline.png'')) ps)
                    [''Mobile'', ''Mobile-Large'', ''Tablet'', ''Desktop''])"
    by (simp add: analyze_via_main_None [of fs ps, OF none] main_None [of fs ps, OF none])
  show ref: "issues (analyzer (snd (analyze fs (start reference_pages)))) =
         replicate 5 (missing_device_support ''addpagehere''
                        [''Mobile'', ''Mobile-Large'', ''Tablet'', ''Desktop''])
         @ concat (map (\<lambda>d. replicate 5
                          (missing_baseline ''addpagehere'' d (d @ ''-addpagehere-baseline.png'')))
                    [''Mobile'', ''Mobile-Large'', ''Tablet'', ''Desktop''])"
    by (simp add: analyze_via_main_None [of fs reference_pages, OF none] main_None [of fs reference_pages, OF none])
      (simp add: reference_pages_def eval_nat_numeral)
  show "length (filter (\<lambda>i. type i = MISSING_DEVICE_SUPPORT)
                  (issues (analyzer (snd (analyze fs (start reference_pages)))))) = 5"
    unfolding ref by (simp add: missing_device_support_def missing_baseline_def)
  show "length (filter (\<lambda>i. type i = MISSING_BASELINE)
                  (issues (analyzer (snd (analyze fs (start reference_pages)))))) = 20"
    unfolding ref by (simp add: missing_device_support_def missing_baseline_def)
  show "length (issues (analyzer (snd (analyze fs (start reference_pages))))) = 25"
    unfolding ref by simp
  then show "issues (analyzer (snd (analyze fs (start reference_pages))))
          \<noteq> issues (analyzer (start reference_pages))"
    by auto
qed

theorem missing_directory_keeps_issues_witness:
  "(Map.empty :: filesystem) ''visual-tests/baselines'' = None
   \<and> list_all single_component reference_pages
   \<and> fst (analyze Map.empty (start reference_pages)) = Inl (ENOENT scandir ''visual-tests/baselines'')
   \<and> issues (analyzer (snd (analyze Map.empty (start reference_pages)))) =
       map (\<lambda>pg. missing_device_support pg [''Mobile'', ''Mobile-Large'', ''Tablet'', ''Desktop''])
         reference_pages
       @ concat (map (\<lambda>d. map (\<lambda>pg. missing_baseline pg d (d @ ''-'' @ pg @ ''-baseline.png''))
                           reference_pages)
                  [''Mobile'', ''Mobile-Large'', ''Tablet'', ''Desktop''])
   \<and> length (issues (analyzer (snd (analyze Map.empty (start reference_pages))))) = 25"
proof -
  have none: "(Map.empty :: filesystem) ''visual-tests/baselines'' = None" by simp
  have names: "list_all single_component reference_pages"
    by (simp add: single_component_def reference_pages_def)
  note inst = missing_directory_keeps_issues [of Map.empty "start reference_pages"
      reference_pages, OF none]
  note listed = inst [THEN conjunct2, THEN conjunct2, THEN conjunct2, THEN conjunct2,
      THEN conjunct1, THEN mp, OF names]
  from inst have "fst (analyze Map.empty (start reference_pages))
                    = Inl (ENOENT scandir ''visual-tests/baselines'')"
    and "length (issues (analyzer (snd (analyze Map.empty (start reference_pages))))) = 25"
    by blast+
  with none names listed show ?thesis by blast
qed
text \<open>
  Claim C10. Let the page names be single path components and the sizes of the files of
  the baseline directory be below \<open>2^53\<close>. The issues that \<^verbatim>\<open>analyzeSizes\<close> appends are the
  issues of each entry of the page list, in the order of the list: a name that occurs
  several times in the list gets its issues that many times. For every page list without the
  name \<^verbatim>\<open>__proto__\<close>, the object \<^verbatim>\<open>sizes\<close> built by the first loop has one key for each
  distinct name. With the five \<^verbatim>\<open>addpagehere\<close> entries of the reference
  configuration and none of their files present, \<^verbatim>\<open>sizes\<close> has the single key
  \<^verbatim>\<open>addpagehere\<close>, and five identical \<open>MISSING_DEVICE_SUPPORT\<close> issues are appended.
\<close>

theorem analyzeSizes_once_per_entry:
  "(list_all single_component ps \<and> exact_sizes fs ''visual-tests/baselines'' \<longrightarrow>
      issues (analyzer (snd (analyzeSizes fs (start ps)))) =
        concat (map (page_issues fs ''visual-tests/baselines''
                       [''Mobile'', ''Mobile-Large'', ''Tablet'', ''Desktop'']) ps)
      \<and> filter (\<lambda>i. page i = Some pg) (issues (analyzer (snd (analyzeSizes fs (start ps))))) =
          concat (replicate (count_list ps pg)
                    (page_issues fs ''visual-tests/baselines''
                       [''Mobile'', ''Mobile-Large'', ''Tablet'', ''Desktop''] pg)))
   \<and> (''__proto__'' \<notin> set ps \<longrightarrow>
       (\<exists>sizes_obj.
         forEach ps (analyzeSizes_collect fs (constructor ps)) [] = (Inr (), sizes_obj)
         \<and> distinct (map fst sizes_obj) \<and> set (map fst sizes_obj) = set ps))
   \<and> ((\<forall>d \<in> set [''Mobile'', ''Mobile-Large'', ''Tablet'', ''Desktop''].
          \<not> existsSync fs (path_join ''visual-tests/baselines''
                             (d @ ''-'' @ ''addpagehere'' @ ''-baseline.png''))) \<longrightarrow>
        forEach reference_pages (analyzeSizes_collect fs (constructor reference_pages)) []
          = (Inr (), [(''addpagehere'', [])])
        \<and> issues (analyzer (snd (analyzeSizes fs (start reference_pages)))) =
            replicate 5 (missing_device_support ''addpagehere''
                           [''Mobile'', ''Mobile-Large'', ''Tablet'', ''Desktop'']))"
proof (intro conjI impI)
  have all: "issues (analyzer (snd (analyzeSizes fs (start ps')))) =
     concat (map (page_issues fs ''visual-tests/baselines''
                    [''Mobile'', ''Mobile-Large'', ''Tablet'', ''Desktop'']) ps')" for ps'
    by (simp add: issues_analyzeSizes_start phase1_issues_def) (simp add: constructor_def)
  show "issues (analyzer (snd (analyzeSizes fs (start ps)))) =
     concat (map (page_issues fs ''visual-tests/baselines''
                    [''Mobile'', ''Mobile-Large'', ''Tablet'', ''Desktop'']) ps)"
    by (rule all)
  show "filter (\<lambda>i. page i = Some pg) (issues (analyzer (snd (analyzeSizes fs (start ps))))) =
       concat (replicate (count_list ps pg)
                 (page_issues fs ''visual-tests/baselines''
                    [''Mobile'', ''Mobile-Large'', ''Tablet'', ''Desktop''] pg))"
    unfolding all by (rule filter_page_concat)
  show "\<exists>sizes_obj.
         forEach ps (analyzeSizes_collect fs (constructor ps)) [] = (Inr (), sizes_obj)
         \<and> distinct (map fst sizes_obj) \<and> set (map fst sizes_obj) = set ps"
    using sizes_object_collapses [of ps fs "constructor ps"] by blast
next
  assume none: "\<forall>d \<in> set [''Mobile'', ''Mobile-Large'', ''Tablet'', ''Desktop''].
          \<not> existsSync fs (path_join ''visual-tests/baselines''
                             (d @ ''-'' @ ''addpagehere'' @ ''-baseline.png''))"
  note nf = page_issues_no_files [of "[''Mobile'', ''Mobile-Large'', ''Tablet'', ''Desktop'']"
      fs "''visual-tests/baselines''" "''addpagehere''", OF none]
  have dist: "distinct (devices (constructor ps'))" for ps'
    by (simp add: constructor_def)
  have rec: "fold (record_size fs (baselinesDir (constructor ps')) ''addpagehere'')
               (devices (constructor ps')) [] = []" for ps'
    unfolding fold_record_size_recorded [OF dist] using nf(1) by (simp add: constructor_def)
  show "forEach reference_pages (analyzeSizes_collect fs (constructor reference_pages)) []
          = (Inr (), [(''addpagehere'', [])])"
    unfolding forEach_analyzeSizes_collect by (simp add: reference_pages_def rec)
  have "issues (analyzer (snd (analyzeSizes fs (start reference_pages)))) =
     concat (map (page_issues fs ''visual-tests/baselines''
                    [''Mobile'', ''Mobile-Large'', ''Tablet'', ''Desktop'']) reference_pages)"
    by (simp add: issues_analyzeSizes_start phase1_issues_def) (simp add: constructor_def)
  then show "issues (analyzer (snd (analyzeSizes fs (start reference_pages)))) =
            replicate 5 (missing_device_support ''addpagehere''
                           [''Mobile'', ''Mobile-Large'', ''Tablet'', ''Desktop''])"
    by (simp add: reference_pages_def nf(2) eval_nat_numeral)
qed

theorem analyzeSizes_once_per_entry_witness:
  "list_all single_component reference_pages
   \<and> exact_sizes Map.empty ''visual-tests/baselines''
   \<and> issues (analyzer (snd (analyzeSizes Map.empty (start reference_pages)))) =
       concat (map (page_issues Map.empty ''visual-tests/baselines''
                      [''Mobile'', ''Mobile-Large'', ''Tablet'', ''Desktop'']) reference_pages)
   \<and> ''__proto__'' \<notin> set reference_pages
   \<and> list_all (\<lambda>d. \<not> existsSync Map.empty (path_join ''visual-tests/baselines''
                                          (d @ ''-'' @ ''addpagehere'' @ ''-baseline.png'')))
       [''Mobile'', ''Mobile-Large'', ''Tablet'', ''Desktop'']
   \<and> issues (analyzer (snd (analyzeSizes Map.empty (start reference_pages)))) =
       replicate 5 (missing_device_support ''addpagehere''
                      [''Mobile'', ''Mobile-Large'', ''Tablet'', ''Desktop''])
   \<and> length (issues (analyzer (snd (analyzeSizes Map.empty (start reference_pages))))) = 5"
proof -
  have names: "list_all single_component reference_pages"
    by (simp add: single_component_def reference_pages_def)
  have sizes: "exact_sizes Map.empty ''visual-tests/baselines''"
    by (simp add: exact_sizes_def)
  from names sizes have h: "list_all single_component reference_pages
      \<and> exact_sizes Map.empty ''visual-tests/baselines''" by (rule conjI)
  have proto: "''__proto__'' \<notin> set reference_pages"
    by (simp add: reference_pages_def)
  have none: "\<forall>d \<in> set [''Mobile'', ''Mobile-Large'', ''Tablet'', ''Desktop''].
      \<not> existsSync Map.empty (path_join ''visual-tests/baselines''
                                (d @ ''-'' @ ''addpagehere'' @ ''-baseline.png''))"
    by (simp add: existsSync_def)
  note once = analyzeSizes_once_per_entry [of reference_pages Map.empty "''addpagehere''"]
  note entries = once [THEN conjunct1, THEN mp, OF h, THEN conjunct1]
  note inst = once [THEN conjunct2, THEN conjunct2, THEN mp, OF none, THEN conjunct2]
  have len: "length (issues (analyzer (snd (analyzeSizes Map.empty (start reference_pages))))) = 5"
    unfolding inst by simp
  have devs: "list_all (\<lambda>d. \<not> existsSync Map.empty (path_join ''visual-tests/baselines''
                                          (d @ ''-'' @ ''addpagehere'' @ ''-baseline.png'')))
     [''Mobile'', ''Mobile-Large'', ''Tablet'', ''Desktop'']"
    using none by (simp only: list_all_iff)
  from names sizes entries proto devs inst len show ?thesis by blast
qed

end
